theory Spec2Isabelle
  imports Main
begin

section \<open>Platform: integer widths, status codes, process state\<close>

text \<open>
  \<^verbatim>\<open>camera/AicClient.cpp\<close> is C++ over the POSIX socket interface.  Its integer types
  are \<^verbatim>\<open>int\<close> (32 bits on every Android ABI), \<^verbatim>\<open>long\<close> (the result of
  \<^verbatim>\<open>strtol\<close>) and \<^verbatim>\<open>size_t\<close>; the last two have 32 bits on the 32-bit ABIs
  and 64 bits on the 64-bit ones.  Values are modelled as \<open>int\<close>, and every conversion
  and every unsigned operation of the source is written out with its wrap-around.
\<close>

datatype data_model = ILP32 | LP64

fun long_bits :: "data_model \<Rightarrow> nat" where
  "long_bits ILP32 = 32"
| "long_bits LP64 = 64"

definition LONG_MAX :: "data_model \<Rightarrow> int" where
  "LONG_MAX dm = 2 ^ (long_bits dm - 1) - 1"

definition LONG_MIN :: "data_model \<Rightarrow> int" where
  "LONG_MIN dm = - (2 ^ (long_bits dm - 1))"

definition SSIZE_MAX :: "data_model \<Rightarrow> int" where
  "SSIZE_MAX dm = 2 ^ (long_bits dm - 1) - 1"

text \<open>Conversion to \<^verbatim>\<open>size_t\<close>, and the unsigned subtraction and addition on it.\<close>

definition to_size_t :: "data_model \<Rightarrow> int \<Rightarrow> int" where
  "to_size_t dm x = x mod 2 ^ long_bits dm"

definition size_sub :: "data_model \<Rightarrow> int \<Rightarrow> int \<Rightarrow> int" where
  "size_sub dm a b = (a - b) mod 2 ^ long_bits dm"

definition size_add :: "data_model \<Rightarrow> int \<Rightarrow> int \<Rightarrow> int" where
  "size_add dm a b = (a + b) mod 2 ^ long_bits dm"

text \<open>Conversion to the 32-bit \<^verbatim>\<open>int\<close> (two's complement).\<close>

definition to_int :: "int \<Rightarrow> int" where
  "to_int x = (x + 2 ^ 31) mod 2 ^ 32 - 2 ^ 31"

text \<open>\<^verbatim>\<open>status_t\<close> is an \<^verbatim>\<open>int\<close>; the codes are those of the Linux \<^verbatim>\<open>errno.h\<close>.\<close>

definition NO_ERROR :: int where "NO_ERROR = 0"
definition EIO :: int where "EIO = 5"
definition EBADF :: int where "EBADF = 9"
definition ENOMEM :: int where "ENOMEM = 12"
definition EFAULT :: int where "EFAULT = 14"
definition EINVAL :: int where "EINVAL = 22"
definition ERANGE :: int where "ERANGE = 34"

type_synonym byte = char

text \<open>
  What the connected descriptor will deliver to successive \<^verbatim>\<open>read\<close> calls: a chunk of
  bytes that has arrived, or a failure with its \<^verbatim>\<open>errno\<close> (a receive timeout is
  \<^verbatim>\<open>Err EAGAIN\<close>).  The empty list is the end of the stream.
\<close>

datatype rx_event = Data "byte list" | Err int

datatype sockopt = SO_RCVTIMEO int | TCP_NODELAY int

text \<open>A heap block: one cell per byte, \<open>None\<close> while the byte is uninitialised.\<close>

type_synonym block = "byte option list"

record world =
  errno :: int
  fds :: "int list"
  peers :: "(int \<times> int) list"
  sockopts :: "(int \<times> sockopt) list"
  rx :: "rx_event list"
  heap :: "(nat \<times> block) list"
  malloc_ok :: "int \<Rightarrow> bool"
  refused_errno :: int

text \<open>The idiom \<^verbatim>\<open>errno ? errno : E\<close> of the source.\<close>

definition errno_or :: "int \<Rightarrow> world \<Rightarrow> int" where
  "errno_or e w = (if errno w \<noteq> 0 then errno w else e)"

section \<open>Connection life cycle\<close>

record AicClient =
  mSocketFD :: int

text \<open>The constructor: \<^verbatim>\<open>mSocketFD(-1)\<close>.\<close>

definition AicClient_new :: AicClient where
  "AicClient_new = \<lparr>mSocketFD = -1\<rparr>"

text \<open>
  The outcome of a system call is the environment's choice: \<open>Ret r\<close> returns \<open>r\<close>,
  \<open>Fail e\<close> returns \<open>-1\<close> and sets \<^verbatim>\<open>errno\<close> to \<open>e\<close>.
\<close>

datatype sys_ret = Ret int | Fail int

record sys_env =
  socket_res :: sys_ret
  connect_res :: sys_ret

definition sys_socket :: "sys_env \<Rightarrow> world \<Rightarrow> int \<times> world" where
  "sys_socket env w =
     (case socket_res env of
        Ret fd \<Rightarrow> (fd, if 0 \<le> fd then w\<lparr>fds := fd # fds w\<rparr> else w)
      | Fail e \<Rightarrow> (-1, w\<lparr>errno := e\<rparr>))"

text \<open>\<^verbatim>\<open>connect\<close> to the loopback address; the port goes through \<^verbatim>\<open>htons\<close>.\<close>

definition sys_connect :: "sys_env \<Rightarrow> int \<Rightarrow> int \<Rightarrow> world \<Rightarrow> int \<times> world" where
  "sys_connect env fd port w =
     (case connect_res env of
        Ret r \<Rightarrow> (r, if 0 \<le> r then w\<lparr>peers := (fd, port mod 65536) # peers w\<rparr> else w)
      | Fail e \<Rightarrow> (-1, w\<lparr>errno := e\<rparr>))"

definition sys_setsockopt :: "int \<Rightarrow> sockopt \<Rightarrow> world \<Rightarrow> world" where
  "sys_setsockopt fd opt w = w\<lparr>sockopts := (fd, opt) # sockopts w\<rparr>"

text \<open>\<^verbatim>\<open>close\<close>: a descriptor that is not open gives \<^verbatim>\<open>EBADF\<close>.\<close>

definition sys_close :: "int \<Rightarrow> world \<Rightarrow> world" where
  "sys_close fd w =
     (if fd \<in> set (fds w)
      then w\<lparr>fds := removeAll fd (fds w),
             peers := filter (\<lambda>p. fst p \<noteq> fd) (peers w),
             sockopts := filter (\<lambda>p. fst p \<noteq> fd) (sockopts w)\<rparr>
      else w\<lparr>errno := EBADF\<rparr>)"

definition connectClient ::
  "int \<Rightarrow> sys_env \<Rightarrow> AicClient \<Rightarrow> world \<Rightarrow> int \<times> AicClient \<times> world" where
  "connectClient local_srv_port env c w =
     (if 0 \<le> mSocketFD c then (EINVAL, c, w)
      else
        let (fd, w1) = sys_socket env w;
            c1 = c\<lparr>mSocketFD := fd\<rparr>
        in if mSocketFD c1 < 0 then (errno_or EINVAL w1, c1, w1)
           else
             let (r, w2) = sys_connect env (mSocketFD c1) local_srv_port w1
             in if r < 0 then (errno_or EINVAL w2, c1, w2)
                else
                  let w3 = sys_setsockopt (mSocketFD c1) (SO_RCVTIMEO 10) w2;
                      w4 = sys_setsockopt (mSocketFD c1) (TCP_NODELAY 1) w3
                  in (NO_ERROR, c1, w4))"

definition disconnectClient :: "AicClient \<Rightarrow> world \<Rightarrow> AicClient \<times> world" where
  "disconnectClient c w =
     (if 0 \<le> mSocketFD c
      then (c\<lparr>mSocketFD := -1\<rparr>, sys_close (mSocketFD c) w)
      else (c, w))"

text \<open>A concrete process state for the examples below: nothing open, nothing allocated.\<close>

definition idle_world :: world where
  "idle_world = \<lparr>errno = 0, fds = [], peers = [], sockopts = [], rx = [], heap = [],
     malloc_ok = (\<lambda>n. True), refused_errno = EFAULT\<rparr>"

subsection \<open>Connecting twice\<close>

text \<open>
  C8.  A call of \<open>connectClient\<close> on a client whose descriptor is live returns
  \<open>EINVAL\<close> and changes nothing: the client still holds the same descriptor, and the
  process state is the one before the call, so no socket was created, closed or replaced.
\<close>

theorem connectClient_already_connected:
  assumes "0 \<le> mSocketFD c"
  shows "connectClient port env c w = (EINVAL, c, w)"
  using assms by (simp add: connectClient_def)

theorem connectClient_already_connected_witness:
  "0 \<le> mSocketFD \<lparr>mSocketFD = 3\<rparr> \<and>
   connectClient 5555 \<lparr>socket_res = Ret 4, connect_res = Ret 0\<rparr> \<lparr>mSocketFD = 3\<rparr>
       (idle_world\<lparr>fds := [3]\<rparr>)
     = (EINVAL, \<lparr>mSocketFD = 3\<rparr>, idle_world\<lparr>fds := [3]\<rparr>)"
  using connectClient_already_connected
          [of "\<lparr>mSocketFD = 3\<rparr>" 5555 "\<lparr>socket_res = Ret 4, connect_res = Ret 0\<rparr>"
              "idle_world\<lparr>fds := [3]\<rparr>"]
  by simp

subsection \<open>Disconnecting\<close>

text \<open>
  C9.  \<open>disconnectClient\<close> on a disconnected client returns the client and the process
  state as they were; after any call the client is disconnected, with the handle set to
  \<open>-1\<close> when it was live; and a second call changes nothing the first one left.
\<close>

theorem disconnectClient_idempotent:
  "(mSocketFD c < 0 \<longrightarrow> disconnectClient c w = (c, w)) \<and>
   mSocketFD (fst (disconnectClient c w)) < 0 \<and>
   (0 \<le> mSocketFD c \<longrightarrow> mSocketFD (fst (disconnectClient c w)) = -1) \<and>
   disconnectClient (fst (disconnectClient c w)) (snd (disconnectClient c w))
     = disconnectClient c w"
  by (simp add: disconnectClient_def)

theorem disconnectClient_idempotent_witness:
  "disconnectClient AicClient_new idle_world = (AicClient_new, idle_world) \<and>
   mSocketFD (fst (disconnectClient \<lparr>mSocketFD = 3\<rparr> (idle_world\<lparr>fds := [3]\<rparr>))) = -1 \<and>
   disconnectClient (fst (disconnectClient \<lparr>mSocketFD = 3\<rparr> (idle_world\<lparr>fds := [3]\<rparr>)))
       (snd (disconnectClient \<lparr>mSocketFD = 3\<rparr> (idle_world\<lparr>fds := [3]\<rparr>)))
     = disconnectClient \<lparr>mSocketFD = 3\<rparr> (idle_world\<lparr>fds := [3]\<rparr>)"
  using disconnectClient_idempotent [of AicClient_new idle_world]
        disconnectClient_idempotent [of "\<lparr>mSocketFD = 3\<rparr>" "idle_world\<lparr>fds := [3]\<rparr>"]
  by (simp add: AicClient_new_def)

subsection \<open>A failed connect keeps the descriptor\<close>

text \<open>
  C10.  When \<open>socket\<close> succeeds and \<open>connect\<close> fails, \<open>connectClient\<close> returns a
  non-zero status, the client keeps the new descriptor, which stays open; from then on
  every \<open>connectClient\<close> returns \<open>EINVAL\<close> without any effect, until
  \<open>disconnectClient\<close> closes the descriptor and resets the handle to \<open>-1\<close>.
\<close>

theorem connectClient_failed_connect_keeps_socket:
  assumes "mSocketFD c < 0"
      and "socket_res env = Ret fd" and "0 \<le> fd"
      and "connect_res env = Fail e"
  shows "fst (connectClient port env c w) = (if e \<noteq> 0 then e else EINVAL) \<and>
         fst (connectClient port env c w) \<noteq> NO_ERROR \<and>
         mSocketFD (fst (snd (connectClient port env c w))) = fd \<and>
         fd \<in> set (fds (snd (snd (connectClient port env c w)))) \<and>
         (\<forall>port' env' w'.
            connectClient port' env' (fst (snd (connectClient port env c w))) w'
              = (EINVAL, fst (snd (connectClient port env c w)), w')) \<and>
         mSocketFD (fst (disconnectClient (fst (snd (connectClient port env c w)))
                           (snd (snd (connectClient port env c w))))) = -1 \<and>
         fd \<notin> set (fds (snd (disconnectClient (fst (snd (connectClient port env c w)))
                           (snd (snd (connectClient port env c w))))))"
  using assms
  by (simp add: connectClient_def sys_socket_def sys_connect_def errno_or_def
        disconnectClient_def sys_close_def EINVAL_def NO_ERROR_def)

theorem connectClient_failed_connect_keeps_socket_witness:
  "fst (connectClient 5555 \<lparr>socket_res = Ret 4, connect_res = Fail 111\<rparr>
          AicClient_new idle_world) = 111 \<and>
   mSocketFD (fst (snd (connectClient 5555 \<lparr>socket_res = Ret 4, connect_res = Fail 111\<rparr>
          AicClient_new idle_world))) = 4 \<and>
   connectClient 5555 \<lparr>socket_res = Ret 5, connect_res = Ret 0\<rparr>
       (fst (snd (connectClient 5555 \<lparr>socket_res = Ret 4, connect_res = Fail 111\<rparr>
          AicClient_new idle_world))) idle_world
     = (EINVAL, \<lparr>mSocketFD = 4\<rparr>, idle_world)"
  using connectClient_failed_connect_keeps_socket
          [of AicClient_new "\<lparr>socket_res = Ret 4, connect_res = Fail 111\<rparr>" 4 111
              5555 idle_world]
  by (simp add: AicClient_new_def)

section \<open>The start query\<close>

text \<open>
  \<^verbatim>\<open>queryStart\<close> formats its command with
  \<^verbatim>\<open>snprintf(query_str, sizeof(query_str), "%s dim=%dx%d pix=%d", mQueryStart, width, height, pixel_format)\<close>
  into a buffer of 256 characters.  \<open>fmt_d\<close> is the conversion \<^verbatim>\<open>%d\<close> of an
  \<^verbatim>\<open>int\<close>.
\<close>

definition digit_char :: "nat \<Rightarrow> char" where
  "digit_char d = ''0123456789'' ! d"

fun dec_nat :: "nat \<Rightarrow> string" where
  "dec_nat n = (if n < 10 then [digit_char n] else dec_nat (n div 10) @ [digit_char (n mod 10)])"

declare dec_nat.simps [simp del]

definition fmt_d :: "int \<Rightarrow> string" where
  "fmt_d i = (if i < 0 then CHR ''-'' # dec_nat (nat (- i)) else dec_nat (nat i))"

text \<open>\<^verbatim>\<open>snprintf\<close> into \<open>n\<close> characters keeps at most \<open>n - 1\<close> of the formatted text.\<close>

definition snprintf :: "nat \<Rightarrow> string \<Rightarrow> string" where
  "snprintf n s = take (n - 1) s"

definition mQueryStart :: string where
  "mQueryStart = ''start''"

text \<open>
  The query string of \<^verbatim>\<open>queryStart(pixel_format, width, height)\<close>.  The parameter
  \<open>pixel_format\<close> is a \<^verbatim>\<open>uint32_t\<close>, a value in \<open>[0, 2^32)\<close>; the conversion
  \<^verbatim>\<open>%d\<close> reads its 32 bits as an \<^verbatim>\<open>int\<close>.
\<close>

definition queryStart_query :: "int \<Rightarrow> int \<Rightarrow> int \<Rightarrow> string" where
  "queryStart_query pixel_format width height =
     snprintf 256 (mQueryStart @ '' dim='' @ fmt_d width @ ''x'' @ fmt_d height @
                   '' pix='' @ fmt_d (to_int pixel_format))"

lemma queryStart_query_example:
  "queryStart_query 842094169 1280 720 = ''start dim=1280x720 pix=842094169''"
  by (simp add: queryStart_query_def snprintf_def fmt_d_def to_int_def dec_nat.simps
        digit_char_def mQueryStart_def)

text \<open>
  For a pixel format below \<open>2^31\<close> the string is the documented one, and nothing is cut
  off by the buffer.
\<close>

lemma length_dec_nat: "n < 10 ^ Suc k \<Longrightarrow> length (dec_nat n) \<le> Suc k"
proof (induction k arbitrary: n)
  case 0
  then show ?case by (simp add: dec_nat.simps)
next
  case (Suc k)
  show ?case
  proof (cases "n < 10")
    case True
    then show ?thesis by (simp add: dec_nat.simps)
  next
    case False
    have "n div 10 < 10 ^ Suc k"
      using Suc.prems by (simp add: less_mult_imp_div_less)
    then have "length (dec_nat (n div 10)) \<le> Suc k"
      by (rule Suc.IH)
    then show ?thesis
      using False by (subst dec_nat.simps) simp
  qed
qed

lemma length_fmt_d:
  assumes "- (2 ^ 31) \<le> i" "i < 2 ^ 31"
  shows "length (fmt_d i) \<le> 11"
proof -
  have "nat \<bar>i\<bar> < 10 ^ Suc 9"
    using assms by simp
  then have "length (dec_nat (nat \<bar>i\<bar>)) \<le> Suc 9"
    by (rule length_dec_nat)
  then show ?thesis
    by (cases "i < 0") (simp_all add: fmt_d_def abs_if)
qed

lemma queryStart_query_in_range:
  assumes "- (2 ^ 31) \<le> width" "width < 2 ^ 31"
      and "- (2 ^ 31) \<le> height" "height < 2 ^ 31"
      and "0 \<le> pixel_format" "pixel_format < 2 ^ 31"
  shows "queryStart_query pixel_format width height
           = ''start dim='' @ fmt_d width @ ''x'' @ fmt_d height @ '' pix=''
               @ dec_nat (nat pixel_format)"
proof -
  have pix: "fmt_d (to_int pixel_format) = dec_nat (nat pixel_format)"
    using assms(5,6) by (simp add: to_int_def fmt_d_def)
  have "length (fmt_d width) \<le> 11" "length (fmt_d height) \<le> 11"
    "length (fmt_d pixel_format) \<le> 11"
    using assms by (simp_all add: length_fmt_d)
  then have "length (''start dim='' @ fmt_d width @ ''x'' @ fmt_d height @ '' pix=''
               @ dec_nat (nat pixel_format)) \<le> 255"
    using assms(5) by (simp add: fmt_d_def)
  then show ?thesis
    by (simp add: queryStart_query_def snprintf_def mQueryStart_def pix)
qed

text \<open>
  C7.  The command is \<open>start dim=<width>x<height> pix=<pixel_format>\<close> with the three
  numbers in decimal, the pixel format as an unsigned 32-bit value.  At the pixel format
  \<open>4294967295\<close> the source writes \<open>pix=-1\<close>, not \<open>pix=4294967295\<close>.
\<close>

theorem queryStart_query_signed_pixel_format:
  "queryStart_query 4294967295 1280 720 = ''start dim=1280x720 pix=-1''"
  by (simp add: queryStart_query_def snprintf_def fmt_d_def to_int_def dec_nat.simps
        digit_char_def mQueryStart_def)

section \<open>The frame query\<close>

text \<open>
  The class \<^verbatim>\<open>QemuQuery\<close> is declared outside \<^verbatim>\<open>AicClient.cpp\<close>.  The record
  holds what \<^verbatim>\<open>queryFrame\<close> and \<^verbatim>\<open>queryInfo\<close> read of a query after
  \<^verbatim>\<open>doQuery\<close>: \<^verbatim>\<open>getCompletionStatus()\<close>, \<^verbatim>\<open>isQuerySucceeded()\<close>, the bytes at
  \<^verbatim>\<open>mReplyData\<close> and the \<^verbatim>\<open>size_t\<close> \<^verbatim>\<open>mReplyDataSize\<close>.
\<close>

record QemuQuery =
  completion_status :: int
  query_succeeded :: bool
  mReplyData :: "byte list"
  mReplyDataSize :: int

text \<open>
  \<^verbatim>\<open>memcpy(dst, src, n)\<close> on buffers given by their contents; \<open>n\<close> is within both
  buffers where the call is defined.
\<close>

definition memcpy :: "byte list \<Rightarrow> byte list \<Rightarrow> int \<Rightarrow> byte list" where
  "memcpy dst src n = take (nat n) src @ drop (nat n) dst"

text \<open>
  The length \<^verbatim>\<open>queryFrame\<close> requests for a frame in its query string:
  \<^verbatim>\<open>(vframe && vframe_size) ? vframe_size : 0\<close>.  A buffer is \<open>None\<close> for a null
  pointer.
\<close>

definition requested :: "byte list option \<Rightarrow> int \<Rightarrow> int" where
  "requested frame frame_size = (if frame \<noteq> None \<and> frame_size \<noteq> 0 then frame_size else 0)"

text \<open>The caller's side of the contract: a buffer holds the size passed with it.\<close>

definition holds :: "byte list option \<Rightarrow> int \<Rightarrow> bool" where
  "holds frame frame_size =
     (case frame of None \<Rightarrow> True | Some dst \<Rightarrow> frame_size \<le> int (length dst))"

text \<open>
  The result of the copying part of \<^verbatim>\<open>queryFrame\<close>: the status, the two buffers, and
  as a ghost field the operands \<open>(mReplyDataSize, cur_offset)\<close> of every subtraction
  \<^verbatim>\<open>query.mReplyDataSize - cur_offset\<close> that was evaluated, in order.
\<close>

record frame_out =
  fr_status :: int
  fr_vframe :: "byte list option"
  fr_pframe :: "byte list option"
  fr_remaining :: "(int \<times> int) list"

text \<open>
  \<^verbatim>\<open>queryFrame\<close> from the completion status on (lines 378 to 413); the query string
  before it carries floating-point parameters and is not modelled.
\<close>

definition queryFrame ::
  "data_model \<Rightarrow> QemuQuery \<Rightarrow> byte list option \<Rightarrow> byte list option \<Rightarrow> int \<Rightarrow> int
     \<Rightarrow> frame_out" where
  "queryFrame dm query vframe pframe vframe_size pframe_size =
     (let res = completion_status query in
      if res \<noteq> NO_ERROR
      then \<lparr>fr_status = res, fr_vframe = vframe, fr_pframe = pframe, fr_remaining = []\<rparr>
      else
        let cur_offset = 0;
            frame = mReplyData query;
            video =
              (if vframe \<noteq> None \<and> vframe_size \<noteq> 0
               then (if vframe_size \<le> size_sub dm (mReplyDataSize query) cur_offset
                     then Inr (map_option (\<lambda>dst. memcpy dst frame vframe_size) vframe,
                               size_add dm cur_offset vframe_size,
                               [(mReplyDataSize query, cur_offset)])
                     else Inl [(mReplyDataSize query, cur_offset)])
               else Inr (vframe, cur_offset, []))
        in case video of
             Inl ops \<Rightarrow>
               \<lparr>fr_status = EINVAL, fr_vframe = vframe, fr_pframe = pframe, fr_remaining = ops\<rparr>
           | Inr (vframe', cur_offset', ops) \<Rightarrow>
               if pframe \<noteq> None \<and> pframe_size \<noteq> 0
               then (if pframe_size \<le> size_sub dm (mReplyDataSize query) cur_offset'
                     then \<lparr>fr_status = NO_ERROR, fr_vframe = vframe',
                            fr_pframe = map_option
                              (\<lambda>dst. memcpy dst (drop (nat cur_offset') frame) pframe_size) pframe,
                            fr_remaining = ops @ [(mReplyDataSize query, cur_offset')]\<rparr>
                     else \<lparr>fr_status = EINVAL, fr_vframe = vframe', fr_pframe = pframe,
                            fr_remaining = ops @ [(mReplyDataSize query, cur_offset')]\<rparr>)
               else \<lparr>fr_status = NO_ERROR, fr_vframe = vframe', fr_pframe = pframe,
                      fr_remaining = ops\<rparr>)"

lemma size_sub_exact:
  "0 \<le> b \<Longrightarrow> b \<le> a \<Longrightarrow> a < 2 ^ long_bits dm \<Longrightarrow> size_sub dm a b = a - b"
  by (simp add: size_sub_def)

lemma size_add_zero:
  "0 \<le> b \<Longrightarrow> b < 2 ^ long_bits dm \<Longrightarrow> size_add dm 0 b = b"
  by (simp add: size_add_def)

lemma queryFrame_video_short:
  assumes "completion_status q = NO_ERROR"
      and "0 \<le> mReplyDataSize q" "mReplyDataSize q < 2 ^ long_bits dm"
      and "vframe \<noteq> None" "vframe_size \<noteq> 0" "mReplyDataSize q < vframe_size"
  shows "queryFrame dm q vframe pframe vframe_size pframe_size
           = \<lparr>fr_status = EINVAL, fr_vframe = vframe, fr_pframe = pframe,
               fr_remaining = [(mReplyDataSize q, 0)]\<rparr>"
  using assms by (simp add: queryFrame_def Let_def size_sub_exact)

lemma queryFrame_fits:
  assumes "completion_status q = NO_ERROR"
      and "0 \<le> mReplyDataSize q" "mReplyDataSize q < 2 ^ long_bits dm"
      and "0 \<le> vframe_size" "0 \<le> pframe_size"
      and "requested vframe vframe_size + requested pframe pframe_size \<le> mReplyDataSize q"
  shows "fr_status (queryFrame dm q vframe pframe vframe_size pframe_size) = NO_ERROR"
    and "fr_vframe (queryFrame dm q vframe pframe vframe_size pframe_size)
           = map_option (\<lambda>dst. memcpy dst (mReplyData q) (requested vframe vframe_size)) vframe"
    and "fr_pframe (queryFrame dm q vframe pframe vframe_size pframe_size)
           = map_option (\<lambda>dst. memcpy dst (drop (nat (requested vframe vframe_size)) (mReplyData q))
                                 (requested pframe pframe_size)) pframe"
proof -
  let ?V = "vframe \<noteq> None \<and> vframe_size \<noteq> 0"
  let ?P = "pframe \<noteq> None \<and> pframe_size \<noteq> 0"
  have rem0: "size_sub dm (mReplyDataSize q) 0 = mReplyDataSize q"
    using assms(2,3) by (simp add: size_sub_exact)
  have memcpy0: "\<And>dst src. memcpy dst src 0 = dst"
    by (simp add: memcpy_def)
  have opt_id: "\<And>x :: byte list option. map_option (\<lambda>dst. dst) x = x"
    by (simp add: option.map_ident)
  consider (both) "?V" "?P" | (video) "?V" "\<not> ?P" | (preview) "\<not> ?V" "?P"
    | (neither) "\<not> ?V" "\<not> ?P"
    by blast
  then have "fr_status (queryFrame dm q vframe pframe vframe_size pframe_size) = NO_ERROR \<and>
    fr_vframe (queryFrame dm q vframe pframe vframe_size pframe_size)
           = map_option (\<lambda>dst. memcpy dst (mReplyData q) (requested vframe vframe_size)) vframe \<and>
    fr_pframe (queryFrame dm q vframe pframe vframe_size pframe_size)
           = map_option (\<lambda>dst. memcpy dst (drop (nat (requested vframe vframe_size)) (mReplyData q))
                                 (requested pframe pframe_size)) pframe"
  proof cases
    case both
    then have le: "vframe_size + pframe_size \<le> mReplyDataSize q"
      using assms(6) by (simp add: requested_def)
    have add: "size_add dm 0 vframe_size = vframe_size"
      using le assms(3,4,5) by (simp add: size_add_zero)
    have rem1: "size_sub dm (mReplyDataSize q) vframe_size = mReplyDataSize q - vframe_size"
      using le assms(3,4,5) by (simp add: size_sub_exact)
    show ?thesis
      using both assms(1,4,5) le rem0 rem1 add
      by (simp add: queryFrame_def Let_def requested_def)
  next
    case video
    then have le: "vframe_size \<le> mReplyDataSize q"
      using assms(5,6) by (auto simp: requested_def split: if_splits)
    have add: "size_add dm 0 vframe_size = vframe_size"
      using le assms(3,4) by (simp add: size_add_zero)
    have req: "requested vframe vframe_size = vframe_size" "requested pframe pframe_size = 0"
      using video by (auto simp: requested_def)
    show ?thesis
      using video assms(1) le rem0 add
      by (auto simp: queryFrame_def Let_def req memcpy0 opt_id)
  next
    case preview
    then have le: "pframe_size \<le> mReplyDataSize q"
      using assms(4,6) by (auto simp: requested_def split: if_splits)
    have req: "requested vframe vframe_size = 0" "requested pframe pframe_size = pframe_size"
      using preview by (auto simp: requested_def)
    show ?thesis
      using preview assms(1) le rem0
      by (auto simp: queryFrame_def Let_def req memcpy0 opt_id)
  next
    case neither
    have req: "requested vframe vframe_size = 0" "requested pframe pframe_size = 0"
      using neither by (auto simp: requested_def)
    show ?thesis
      using neither assms(1)
      by (auto simp: queryFrame_def Let_def req memcpy0 opt_id)
  qed
  then show "fr_status (queryFrame dm q vframe pframe vframe_size pframe_size) = NO_ERROR"
    and "fr_vframe (queryFrame dm q vframe pframe vframe_size pframe_size)
           = map_option (\<lambda>dst. memcpy dst (mReplyData q) (requested vframe vframe_size)) vframe"
    and "fr_pframe (queryFrame dm q vframe pframe vframe_size pframe_size)
           = map_option (\<lambda>dst. memcpy dst (drop (nat (requested vframe vframe_size)) (mReplyData q))
                                 (requested pframe pframe_size)) pframe"
    by simp_all
qed

lemma queryFrame_preview_short:
  assumes "completion_status q = NO_ERROR"
      and "0 \<le> mReplyDataSize q" "mReplyDataSize q < 2 ^ long_bits dm"
      and "0 \<le> vframe_size"
      and "requested vframe vframe_size \<le> mReplyDataSize q"
      and "0 < requested pframe pframe_size"
      and "mReplyDataSize q - requested vframe vframe_size < requested pframe pframe_size"
  shows "fr_status (queryFrame dm q vframe pframe vframe_size pframe_size) = EINVAL"
    and "fr_vframe (queryFrame dm q vframe pframe vframe_size pframe_size)
           = map_option (\<lambda>dst. memcpy dst (mReplyData q) (requested vframe vframe_size)) vframe"
    and "fr_pframe (queryFrame dm q vframe pframe vframe_size pframe_size) = pframe"
proof -
  have p: "pframe \<noteq> None" "pframe_size \<noteq> 0" "requested pframe pframe_size = pframe_size"
    using assms(6) by (auto simp: requested_def split: if_splits)
  have rem0: "size_sub dm (mReplyDataSize q) 0 = mReplyDataSize q"
    using assms(2,3) by (simp add: size_sub_exact)
  have memcpy0: "\<And>dst src. memcpy dst src 0 = dst"
    by (simp add: memcpy_def)
  have opt_id: "\<And>x :: byte list option. map_option (\<lambda>dst. dst) x = x"
    by (simp add: option.map_ident)
  have "fr_status (queryFrame dm q vframe pframe vframe_size pframe_size) = EINVAL \<and>
        fr_vframe (queryFrame dm q vframe pframe vframe_size pframe_size)
           = map_option (\<lambda>dst. memcpy dst (mReplyData q) (requested vframe vframe_size)) vframe \<and>
        fr_pframe (queryFrame dm q vframe pframe vframe_size pframe_size) = pframe"
  proof (cases "vframe \<noteq> None \<and> vframe_size \<noteq> 0")
    case True
    then have req: "requested vframe vframe_size = vframe_size"
      by (simp add: requested_def)
    have le: "vframe_size \<le> mReplyDataSize q"
      using assms(5) req by simp
    have add: "size_add dm 0 vframe_size = vframe_size"
      using le assms(3,4) by (simp add: size_add_zero)
    have rem1: "size_sub dm (mReplyDataSize q) vframe_size = mReplyDataSize q - vframe_size"
      using le assms(3,4) by (simp add: size_sub_exact)
    show ?thesis
      using True p assms(1,7) le rem0 rem1 add req
      by (simp add: queryFrame_def Let_def)
  next
    case False
    then have req: "requested vframe vframe_size = 0"
      by (auto simp: requested_def)
    show ?thesis
      using False p assms(1,7) rem0 req
      by (auto simp: queryFrame_def Let_def memcpy0 opt_id)
  qed
  then show "fr_status (queryFrame dm q vframe pframe vframe_size pframe_size) = EINVAL"
    and "fr_vframe (queryFrame dm q vframe pframe vframe_size pframe_size)
           = map_option (\<lambda>dst. memcpy dst (mReplyData q) (requested vframe vframe_size)) vframe"
    and "fr_pframe (queryFrame dm q vframe pframe vframe_size pframe_size) = pframe"
    by simp_all
qed

lemma requested_le: "0 \<le> n \<Longrightarrow> 0 \<le> requested frame n \<and> requested frame n \<le> n"
  by (simp add: requested_def)

lemma length_copied:
  assumes "holds frame n" "0 \<le> n" "nat (requested frame n) \<le> length src"
  shows "map_option length (map_option (\<lambda>dst. take (nat (requested frame n)) src
                                              @ drop (nat (requested frame n)) dst) frame)
           = map_option length frame"
proof (cases frame)
  case None
  then show ?thesis by simp
next
  case (Some dst)
  have "requested frame n \<le> int (length dst)"
    using assms(1,2) Some requested_le [of n frame] by (simp add: holds_def)
  then show ?thesis
    using Some assms(3) by simp
qed

subsection \<open>The two segments\<close>

text \<open>
  C1.  Let the query have completed with \<open>NO_ERROR\<close>, with \<open>mReplyDataSize\<close> the
  length of the reply data, and let each buffer hold the size passed with it.  If a video
  frame is requested (a buffer and a non-zero length) and the reply is shorter than it,
  \<open>queryFrame\<close> returns \<open>EINVAL\<close> and both buffers are as they were.  If the reply has
  exactly the requested video length plus the requested preview length, \<open>queryFrame\<close>
  returns \<open>NO_ERROR\<close>, the video buffer starts with the bytes \<open>[0, video_len)\<close> of the
  reply and the preview buffer with the bytes \<open>[video_len, video_len + preview_len)\<close>,
  the buffers keep their lengths, and the two ranges together are the whole reply.  If
  the video frame fits and the bytes after it are fewer than a requested preview frame,
  \<open>queryFrame\<close> returns \<open>EINVAL\<close> with the preview buffer as it was (the video frame
  has been copied): each segment is checked before any byte of it is copied.
\<close>

theorem queryFrame_segments:
  assumes ok: "completion_status q = NO_ERROR"
      and size: "mReplyDataSize q = int (length (mReplyData q))"
                "mReplyDataSize q < 2 ^ long_bits dm"
      and vs: "0 \<le> vframe_size" "vframe_size < 2 ^ long_bits dm" "holds vframe vframe_size"
      and ps: "0 \<le> pframe_size" "pframe_size < 2 ^ long_bits dm" "holds pframe pframe_size"
  shows "(0 < requested vframe vframe_size \<and>
          mReplyDataSize q < requested vframe vframe_size \<longrightarrow>
            fr_status (queryFrame dm q vframe pframe vframe_size pframe_size) = EINVAL \<and>
            fr_vframe (queryFrame dm q vframe pframe vframe_size pframe_size) = vframe \<and>
            fr_pframe (queryFrame dm q vframe pframe vframe_size pframe_size) = pframe) \<and>
         (mReplyDataSize q = requested vframe vframe_size + requested pframe pframe_size \<longrightarrow>
            fr_status (queryFrame dm q vframe pframe vframe_size pframe_size) = NO_ERROR \<and>
            fr_vframe (queryFrame dm q vframe pframe vframe_size pframe_size)
              = map_option (\<lambda>dst. take (nat (requested vframe vframe_size)) (mReplyData q)
                                   @ drop (nat (requested vframe vframe_size)) dst) vframe \<and>
            fr_pframe (queryFrame dm q vframe pframe vframe_size pframe_size)
              = map_option (\<lambda>dst. take (nat (requested pframe pframe_size))
                                     (drop (nat (requested vframe vframe_size)) (mReplyData q))
                                   @ drop (nat (requested pframe pframe_size)) dst) pframe \<and>
            map_option length (fr_vframe (queryFrame dm q vframe pframe vframe_size pframe_size))
              = map_option length vframe \<and>
            map_option length (fr_pframe (queryFrame dm q vframe pframe vframe_size pframe_size))
              = map_option length pframe \<and>
            take (nat (requested vframe vframe_size)) (mReplyData q)
              @ take (nat (requested pframe pframe_size))
                  (drop (nat (requested vframe vframe_size)) (mReplyData q))
              = mReplyData q) \<and>
         (requested vframe vframe_size \<le> mReplyDataSize q \<and>
          0 < requested pframe pframe_size \<and>
          mReplyDataSize q - requested vframe vframe_size < requested pframe pframe_size \<longrightarrow>
            fr_status (queryFrame dm q vframe pframe vframe_size pframe_size) = EINVAL \<and>
            fr_pframe (queryFrame dm q vframe pframe vframe_size pframe_size) = pframe \<and>
            fr_vframe (queryFrame dm q vframe pframe vframe_size pframe_size)
              = map_option (\<lambda>dst. take (nat (requested vframe vframe_size)) (mReplyData q)
                                   @ drop (nat (requested vframe vframe_size)) dst) vframe)"
proof (intro conjI impI)
  assume short: "0 < requested vframe vframe_size \<and>
                 mReplyDataSize q < requested vframe vframe_size"
  then have req: "vframe \<noteq> None" "vframe_size \<noteq> 0" "mReplyDataSize q < vframe_size"
    by (auto simp: requested_def split: if_splits)
  have eq: "queryFrame dm q vframe pframe vframe_size pframe_size
              = \<lparr>fr_status = EINVAL, fr_vframe = vframe, fr_pframe = pframe,
                  fr_remaining = [(mReplyDataSize q, 0)]\<rparr>"
    using ok size req by (intro queryFrame_video_short) simp_all
  show "fr_status (queryFrame dm q vframe pframe vframe_size pframe_size) = EINVAL"
    and "fr_vframe (queryFrame dm q vframe pframe vframe_size pframe_size) = vframe"
    and "fr_pframe (queryFrame dm q vframe pframe vframe_size pframe_size) = pframe"
    by (simp_all add: eq)
next
  assume exact: "mReplyDataSize q = requested vframe vframe_size + requested pframe pframe_size"
  have fits: "requested vframe vframe_size + requested pframe pframe_size \<le> mReplyDataSize q"
    using exact by simp
  have nonneg: "0 \<le> mReplyDataSize q"
    using size by simp
  have rv: "0 \<le> requested vframe vframe_size" and rp: "0 \<le> requested pframe pframe_size"
    using vs(1) ps(1) by (simp_all add: requested_le)
  have sum: "nat (requested vframe vframe_size) + nat (requested pframe pframe_size)
               = length (mReplyData q)"
    using exact size rv rp by simp
  show "fr_status (queryFrame dm q vframe pframe vframe_size pframe_size) = NO_ERROR"
    using ok nonneg size(2) vs(1) ps(1) fits by (rule queryFrame_fits(1))
  show v: "fr_vframe (queryFrame dm q vframe pframe vframe_size pframe_size)
          = map_option (\<lambda>dst. take (nat (requested vframe vframe_size)) (mReplyData q)
                               @ drop (nat (requested vframe vframe_size)) dst) vframe"
    using queryFrame_fits(2) [OF ok nonneg size(2) vs(1) ps(1) fits]
    by (simp add: memcpy_def)
  show p: "fr_pframe (queryFrame dm q vframe pframe vframe_size pframe_size)
          = map_option (\<lambda>dst. take (nat (requested pframe pframe_size))
                                 (drop (nat (requested vframe vframe_size)) (mReplyData q))
                               @ drop (nat (requested pframe pframe_size)) dst) pframe"
    using queryFrame_fits(3) [OF ok nonneg size(2) vs(1) ps(1) fits]
    by (simp add: memcpy_def)
  show "map_option length (fr_vframe (queryFrame dm q vframe pframe vframe_size pframe_size))
          = map_option length vframe"
    unfolding v using sum by (intro length_copied [OF vs(3) vs(1)]) simp
  show "map_option length (fr_pframe (queryFrame dm q vframe pframe vframe_size pframe_size))
          = map_option length pframe"
    unfolding p using sum by (intro length_copied [OF ps(3) ps(1)]) simp
  show "take (nat (requested vframe vframe_size)) (mReplyData q)
              @ take (nat (requested pframe pframe_size))
                  (drop (nat (requested vframe vframe_size)) (mReplyData q))
              = mReplyData q"
    using sum by (metis append_take_drop_id diff_add_inverse order_refl take_all length_drop)
next
  assume "requested vframe vframe_size \<le> mReplyDataSize q \<and>
          0 < requested pframe pframe_size \<and>
          mReplyDataSize q - requested vframe vframe_size < requested pframe pframe_size"
  then have fits: "requested vframe vframe_size \<le> mReplyDataSize q"
    and wanted: "0 < requested pframe pframe_size"
    and short: "mReplyDataSize q - requested vframe vframe_size < requested pframe pframe_size"
    by simp_all
  have nonneg: "0 \<le> mReplyDataSize q"
    using size by simp
  note res = queryFrame_preview_short [OF ok nonneg size(2) vs(1) fits wanted short]
  show "fr_status (queryFrame dm q vframe pframe vframe_size pframe_size) = EINVAL"
    by (rule res(1))
  show "fr_pframe (queryFrame dm q vframe pframe vframe_size pframe_size) = pframe"
    by (rule res(3))
  show "fr_vframe (queryFrame dm q vframe pframe vframe_size pframe_size)
          = map_option (\<lambda>dst. take (nat (requested vframe vframe_size)) (mReplyData q)
                               @ drop (nat (requested vframe vframe_size)) dst) vframe"
    using res(2) by (simp add: memcpy_def)
qed

definition reply_abcde :: QemuQuery where
  "reply_abcde = \<lparr>completion_status = 0, query_succeeded = True,
     mReplyData = ''abcde'', mReplyDataSize = 5\<rparr>"

definition reply_ab :: QemuQuery where
  "reply_ab = \<lparr>completion_status = 0, query_succeeded = True,
     mReplyData = ''ab'', mReplyDataSize = 2\<rparr>"

definition reply_abcd :: QemuQuery where
  "reply_abcd = \<lparr>completion_status = 0, query_succeeded = True,
     mReplyData = ''abcd'', mReplyDataSize = 4\<rparr>"

theorem queryFrame_segments_witness:
  "fr_status (queryFrame ILP32 reply_ab (Some ''xxxx'') (Some ''yy'') 3 2) = EINVAL \<and>
   fr_vframe (queryFrame ILP32 reply_ab (Some ''xxxx'') (Some ''yy'') 3 2) = Some ''xxxx'' \<and>
   fr_pframe (queryFrame ILP32 reply_ab (Some ''xxxx'') (Some ''yy'') 3 2) = Some ''yy'' \<and>
   fr_status (queryFrame ILP32 reply_abcde (Some ''xxxx'') (Some ''yy'') 3 2) = NO_ERROR \<and>
   fr_vframe (queryFrame ILP32 reply_abcde (Some ''xxxx'') (Some ''yy'') 3 2) = Some ''abcx'' \<and>
   fr_pframe (queryFrame ILP32 reply_abcde (Some ''xxxx'') (Some ''yy'') 3 2) = Some ''de'' \<and>
   fr_status (queryFrame ILP32 reply_abcd (Some ''xxxx'') (Some ''yy'') 3 2) = EINVAL \<and>
   fr_vframe (queryFrame ILP32 reply_abcd (Some ''xxxx'') (Some ''yy'') 3 2) = Some ''abcx'' \<and>
   fr_pframe (queryFrame ILP32 reply_abcd (Some ''xxxx'') (Some ''yy'') 3 2) = Some ''yy''"
  using queryFrame_segments [where q = reply_ab and dm = ILP32 and vframe = "Some ''xxxx''"
          and pframe = "Some ''yy''" and vframe_size = 3 and pframe_size = 2]
        queryFrame_segments [where q = reply_abcde and dm = ILP32 and vframe = "Some ''xxxx''"
          and pframe = "Some ''yy''" and vframe_size = 3 and pframe_size = 2]
        queryFrame_segments [where q = reply_abcd and dm = ILP32 and vframe = "Some ''xxxx''"
          and pframe = "Some ''yy''" and vframe_size = 3 and pframe_size = 2]
  by (simp add: reply_ab_def reply_abcde_def reply_abcd_def NO_ERROR_def requested_def
        holds_def)

subsection \<open>The remaining-bytes subtraction\<close>

text \<open>
  C3.  For a reply size and a requested video length that are \<^verbatim>\<open>size_t\<close> values, every
  subtraction \<^verbatim>\<open>mReplyDataSize - cur_offset\<close> that \<open>queryFrame\<close> evaluates has
  \<open>cur_offset \<le> mReplyDataSize\<close>, so the unsigned difference is the true number of
  remaining bytes.
\<close>

theorem queryFrame_remaining_no_wrap:
  assumes "0 \<le> mReplyDataSize q" "mReplyDataSize q < 2 ^ long_bits dm"
      and "0 \<le> vframe_size" "vframe_size < 2 ^ long_bits dm"
  shows "\<forall>(reply_size, offset)
            \<in> set (fr_remaining (queryFrame dm q vframe pframe vframe_size pframe_size)).
           reply_size = mReplyDataSize q \<and> 0 \<le> offset \<and> offset \<le> reply_size \<and>
           size_sub dm reply_size offset = reply_size - offset"
  using assms
  by (auto simp: queryFrame_def Let_def size_sub_exact size_add_zero split: if_splits)

theorem queryFrame_remaining_no_wrap_witness:
  "fr_remaining (queryFrame ILP32 reply_abcde (Some ''xxxx'') (Some ''yy'') 3 2)
     = [(5, 0), (5, 3)] \<and>
   size_sub ILP32 5 0 = 5 - 0 \<and> size_sub ILP32 5 3 = 5 - 3"
proof -
  have ops: "fr_remaining (queryFrame ILP32 reply_abcde (Some ''xxxx'') (Some ''yy'') 3 2)
               = [(5, 0), (5, 3)]"
    by (simp add: queryFrame_def reply_abcde_def NO_ERROR_def size_sub_def size_add_def)
  have "\<forall>(reply_size, offset) \<in> set [(5, 0), (5, 3)].
          reply_size = mReplyDataSize reply_abcde \<and> 0 \<le> offset \<and> offset \<le> reply_size \<and>
          size_sub ILP32 reply_size offset = reply_size - offset"
    using queryFrame_remaining_no_wrap [where q = reply_abcde and dm = ILP32
            and vframe = "Some ''xxxx''" and pframe = "Some ''yy''"
            and vframe_size = 3 and pframe_size = 2]
    unfolding ops by (simp add: reply_abcde_def)
  then show ?thesis
    using ops by simp
qed

section \<open>Receiving a framed reply\<close>

subsection \<open>The C library and the system calls\<close>

text \<open>
  \<^verbatim>\<open>strtol(nptr, NULL, 16)\<close> as ISO C defines it: white space is skipped, a sign and
  a \<^verbatim>\<open>0x\<close> prefix are accepted, and the digits that follow are converted up to the
  first character that is not a hexadecimal digit (the terminating NUL, or any other
  character: with a null \<^verbatim>\<open>endptr\<close> the caller does not learn where the
  conversion stopped).  With no digit at all the result is 0.  \<^verbatim>\<open>errno\<close> is set, to
  \<^verbatim>\<open>ERANGE\<close>, only when the value is outside the range of \<^verbatim>\<open>long\<close>; the second
  component is the value stored to \<^verbatim>\<open>errno\<close>, if any.
\<close>

definition isspace :: "char \<Rightarrow> bool" where
  "isspace c = (c \<in> set [CHR '' '', CHR 0x09, CHR 0x0A, CHR 0x0B, CHR 0x0C, CHR 0x0D])"

definition hex_digit :: "char \<Rightarrow> int option" where
  "hex_digit = map_of
     [(CHR ''0'', 0), (CHR ''1'', 1), (CHR ''2'', 2), (CHR ''3'', 3), (CHR ''4'', 4),
      (CHR ''5'', 5), (CHR ''6'', 6), (CHR ''7'', 7), (CHR ''8'', 8), (CHR ''9'', 9),
      (CHR ''a'', 10), (CHR ''b'', 11), (CHR ''c'', 12), (CHR ''d'', 13), (CHR ''e'', 14),
      (CHR ''f'', 15),
      (CHR ''A'', 10), (CHR ''B'', 11), (CHR ''C'', 12), (CHR ''D'', 13), (CHR ''E'', 14),
      (CHR ''F'', 15)]"

fun strtol_digits :: "int \<Rightarrow> string \<Rightarrow> int" where
  "strtol_digits acc [] = acc"
| "strtol_digits acc (c # cs) =
     (case hex_digit c of
        None \<Rightarrow> acc
      | Some d \<Rightarrow> strtol_digits (acc * 16 + d) cs)"

definition strtol :: "data_model \<Rightarrow> string \<Rightarrow> int \<times> int option" where
  "strtol dm nptr =
     (let s1 = dropWhile isspace nptr;
          (neg, s2) = (case s1 of
                         [] \<Rightarrow> (False, s1)
                       | c # r \<Rightarrow> if c = CHR ''-'' then (True, r)
                                  else if c = CHR ''+'' then (False, r)
                                  else (False, s1));
          s3 = (case s2 of
                  c0 # x # r \<Rightarrow>
                    if c0 = CHR ''0'' \<and> (x = CHR ''x'' \<or> x = CHR ''X'') then r else s2
                | _ \<Rightarrow> s2);
          v = (if neg then - strtol_digits 0 s3 else strtol_digits 0 s3)
      in if LONG_MAX dm < v then (LONG_MAX dm, Some ERANGE)
         else if v < LONG_MIN dm then (LONG_MIN dm, Some ERANGE)
         else (v, None))"

text \<open>
  \<^verbatim>\<open>read(fd, buf, count)\<close> on the connected descriptor returns the bytes it stores and
  its result: at most \<open>count\<close> bytes of the chunk that has arrived, 0 at the end of the
  stream, \<open>-1\<close> with \<^verbatim>\<open>errno\<close> set on a failure.  A count above \<^verbatim>\<open>SSIZE_MAX\<close> is
  refused by Linux before anything is read; the \<^verbatim>\<open>errno\<close> of the refusal is the
  kernel's, \<open>refused_errno\<close> of the process state: \<^verbatim>\<open>EFAULT\<close> when the range from the
  buffer on does not lie in the address space (with a 64-bit \<^verbatim>\<open>size_t\<close>, always),
  \<^verbatim>\<open>EINVAL\<close> otherwise.  \<open>rx_bytes\<close> counts the bytes the descriptor can still
  deliver.
\<close>

fun rx_bytes :: "rx_event list \<Rightarrow> nat" where
  "rx_bytes [] = 0"
| "rx_bytes (Data bs # es) = length bs + rx_bytes es"
| "rx_bytes (Err e # es) = rx_bytes es"

definition sys_read :: "data_model \<Rightarrow> int \<Rightarrow> world \<Rightarrow> int \<times> byte list \<times> world" where
  "sys_read dm count w =
     (if SSIZE_MAX dm < count then (-1, [], w\<lparr>errno := refused_errno w\<rparr>)
      else case rx w of
             [] \<Rightarrow> (0, [], w)
           | Err e # es \<Rightarrow> (-1, [], w\<lparr>errno := e, rx := es\<rparr>)
           | Data bs # es \<Rightarrow>
               if count = 0 then (0, [], w)
               else (int (length (take (nat count) bs)), take (nat count) bs,
                     w\<lparr>rx := (if drop (nat count) bs = [] then es
                               else Data (drop (nat count) bs) # es)\<rparr>))"

text \<open>
  The heap is a list of blocks under their addresses.  \<^verbatim>\<open>malloc\<close> succeeds or fails as
  the environment decides (\<open>malloc_ok\<close>); a new block gets an address that is not in use
  and holds uninitialised bytes.  \<open>heap_write p off bs\<close> stores \<open>bs\<close> at offset \<open>off\<close> of
  the block at \<open>p\<close>.
\<close>

definition fresh_addr :: "(nat \<times> block) list \<Rightarrow> nat" where
  "fresh_addr h = Suc (fold max (map fst h) 0)"

definition malloc :: "int \<Rightarrow> world \<Rightarrow> nat option \<times> world" where
  "malloc n w =
     (if malloc_ok w n
      then (Some (fresh_addr (heap w)),
            w\<lparr>heap := (fresh_addr (heap w), replicate (nat n) None) # heap w\<rparr>)
      else (None, w))"

definition free :: "nat \<Rightarrow> world \<Rightarrow> world" where
  "free p w = w\<lparr>heap := filter (\<lambda>b. fst b \<noteq> p) (heap w)\<rparr>"

definition store :: "nat \<Rightarrow> byte list \<Rightarrow> block \<Rightarrow> block" where
  "store off bs blk = take off blk @ map Some bs @ drop (off + length bs) blk"

definition heap_write :: "nat \<Rightarrow> nat \<Rightarrow> byte list \<Rightarrow> world \<Rightarrow> world" where
  "heap_write p off bs w =
     w\<lparr>heap := map (\<lambda>b. if fst b = p then (p, store off bs (snd b)) else b) (heap w)\<rparr>"

subsection \<open>receiveMessage\<close>

lemma sys_read_consumes:
  "sys_read dm count w = (r, bs, w') \<Longrightarrow> 0 < r \<Longrightarrow> rx_bytes (rx w') < rx_bytes (rx w)"
  by (auto simp: sys_read_def split: if_splits list.splits rx_event.splits)

text \<open>
  The loop of \<^verbatim>\<open>receiveMessage\<close> (lines 180 to 189) with the check that follows it
  (lines 191 to 198).  The result is the status, \<^verbatim>\<open>*data\<close>, \<^verbatim>\<open>*data_size\<close> and the
  process state.  \<^verbatim>\<open>payload_left\<close>, \<^verbatim>\<open>payload_read\<close> and \<^verbatim>\<open>rd_res\<close> are
  \<^verbatim>\<open>int\<close>; \<^verbatim>\<open>payload_left\<close> is converted to \<^verbatim>\<open>size_t\<close> for \<^verbatim>\<open>read\<close>, and
  \<^verbatim>\<open>payload_read\<close> for the comparisons.
\<close>

function read_payload ::
  "data_model \<Rightarrow> int \<Rightarrow> nat \<Rightarrow> int \<Rightarrow> int \<Rightarrow> int \<Rightarrow> world \<Rightarrow> int \<times> nat option \<times> int \<times> world" where
  "read_payload dm payload_size data payload_left payload_read ptr w =
     (let (rd_res, bytes, w1) = sys_read dm (to_size_t dm payload_left) w in
      if 0 < rd_res then
        let w2 = heap_write data (nat ptr) bytes w1;
            payload_left' = to_int (payload_left - rd_res);
            payload_read' = to_int (payload_read + rd_res);
            ptr' = ptr + rd_res
        in if to_size_t dm payload_read' = payload_size
           then (NO_ERROR, Some data, payload_size, w2)
           else read_payload dm payload_size data payload_left' payload_read' ptr' w2
      else if to_size_t dm payload_read \<noteq> payload_size
           then (errno_or EIO w1, None, 0, free data w1)
           else (NO_ERROR, Some data, 0, w1))"
  by pat_completeness auto
termination
proof (relation "measure (\<lambda>(dm, payload_size, data, payload_left, payload_read, ptr, w).
                            rx_bytes (rx w))")
  show "wf (measure (\<lambda>(dm, payload_size, data, payload_left, payload_read, ptr, w).
                            rx_bytes (rx w)))"
    by simp
next
  fix dm payload_size data payload_left payload_read ptr w x rd_res y bytes w1 w2 l' r' p'
  assume "x = sys_read dm (to_size_t dm payload_left) w" "(rd_res, y) = x" "(bytes, w1) = y"
    "0 < rd_res" "w2 = heap_write data (nat ptr) bytes w1"
  then have "rx_bytes (rx w1) < rx_bytes (rx w)"
    using sys_read_consumes [of dm "to_size_t dm payload_left" w rd_res bytes w1] by simp
  then show "((dm, payload_size, data, l', r', p', w2),
              (dm, payload_size, data, payload_left, payload_read, ptr, w))
             \<in> measure (\<lambda>(dm, payload_size, data, payload_left, payload_read, ptr, w).
                            rx_bytes (rx w))"
    using \<open>w2 = heap_write data (nat ptr) bytes w1\<close> by (simp add: heap_write_def)
qed

declare read_payload.simps [simp del]

text \<open>
  \<^verbatim>\<open>receiveMessage\<close>: \<^verbatim>\<open>*data\<close> and \<^verbatim>\<open>*data_size\<close> start as \<^verbatim>\<open>NULL\<close> and 0; the
  eight characters of the size are read with one \<^verbatim>\<open>read\<close>, converted with
  \<^verbatim>\<open>strtol\<close> after \<^verbatim>\<open>errno = 0\<close>, and the \<^verbatim>\<open>long\<close> is stored to the \<^verbatim>\<open>size_t\<close>
  \<^verbatim>\<open>payload_size\<close>.
\<close>

definition receiveMessage ::
  "data_model \<Rightarrow> AicClient \<Rightarrow> world \<Rightarrow> int \<times> nat option \<times> int \<times> world" where
  "receiveMessage dm c w =
     (if mSocketFD c < 0 then (EINVAL, None, 0, w)
      else
        let (rd_res, payload_size_str, w1) = sys_read dm 8 w in
        if rd_res \<noteq> 8 then (errno_or EIO w1, None, 0, w1)
        else
          let w2 = w1\<lparr>errno := 0\<rparr>;
              (v, e) = strtol dm payload_size_str;
              w3 = (case e of None \<Rightarrow> w2 | Some en \<Rightarrow> w2\<lparr>errno := en\<rparr>);
              payload_size = to_size_t dm v
          in if errno w3 \<noteq> 0 then (EIO, None, 0, w3)
             else
               let (data, w4) = malloc payload_size w3 in
               case data of
                 None \<Rightarrow> (ENOMEM, None, 0, w4)
               | Some p \<Rightarrow> read_payload dm payload_size p (to_int payload_size) 0 0 w4)"

subsection \<open>The sender's side of the framing\<close>

text \<open>
  The length prefix as the wire format has it (the comment at lines 146 to 149): eight
  hexadecimal digits, most significant first, in lower or in upper case.  \<open>rx_stream\<close>
  is the sequence of bytes the descriptor delivers before its first failure or the end of
  the stream.
\<close>

definition hex_char :: "bool \<Rightarrow> nat \<Rightarrow> char" where
  "hex_char upper d = (if upper then ''0123456789ABCDEF'' else ''0123456789abcdef'') ! d"

fun hex_digits :: "bool \<Rightarrow> nat \<Rightarrow> nat \<Rightarrow> string" where
  "hex_digits upper 0 n = []"
| "hex_digits upper (Suc k) n = hex_char upper (n div 16 ^ k mod 16) # hex_digits upper k n"

definition hex8 :: "bool \<Rightarrow> nat \<Rightarrow> string" where
  "hex8 upper n = hex_digits upper 8 n"

fun rx_stream :: "rx_event list \<Rightarrow> byte list" where
  "rx_stream [] = []"
| "rx_stream (Err e # es) = []"
| "rx_stream (Data bs # es) = (if bs = [] then [] else bs @ rx_stream es)"




subsection \<open>Facts about the library model\<close>

lemma hex_digits_numeral:
  "hex_digits upper (numeral k) n
     = hex_char upper (n div 16 ^ pred_numeral k mod 16) # hex_digits upper (pred_numeral k) n"
proof -
  have "hex_digits upper (Suc (pred_numeral k)) n
          = hex_char upper (n div 16 ^ pred_numeral k mod 16) # hex_digits upper (pred_numeral k) n"
    by simp
  then show ?thesis
    by (simp only: numeral_eq_Suc [symmetric])
qed

lemma hex_digits_one: "hex_digits upper 1 n = [hex_char upper (n mod 16)]"
  by simp

lemma hex8_ex:
  "hex8 False 65535 = ''0000ffff''" "hex8 True 65535 = ''0000FFFF''"
  "hex8 False (2 ^ 31) = ''80000000''"
  by (simp_all add: hex8_def hex_digits_numeral hex_char_def)

lemma hex_char_props:
  assumes "d < 16"
  shows "hex_digit (hex_char upper d) = Some (int d)"
    and "\<not> isspace (hex_char upper d)"
    and "hex_char upper d \<noteq> CHR ''-''" and "hex_char upper d \<noteq> CHR ''+''"
    and "hex_char upper d \<noteq> CHR ''x''" and "hex_char upper d \<noteq> CHR ''X''"
proof -
  have d: "d = 0 \<or> d = 1 \<or> d = 2 \<or> d = 3 \<or> d = 4 \<or> d = 5 \<or> d = 6 \<or> d = 7 \<or>
           d = 8 \<or> d = 9 \<or> d = 10 \<or> d = 11 \<or> d = 12 \<or> d = 13 \<or> d = 14 \<or> d = 15"
    using assms by arith
  show "hex_digit (hex_char upper d) = Some (int d)"
    using d by (cases upper; elim disjE; simp add: hex_char_def hex_digit_def)
  show "\<not> isspace (hex_char upper d)"
    using d by (cases upper; elim disjE; simp add: hex_char_def isspace_def)
  show "hex_char upper d \<noteq> CHR ''-''" "hex_char upper d \<noteq> CHR ''+''"
       "hex_char upper d \<noteq> CHR ''x''" "hex_char upper d \<noteq> CHR ''X''"
    using d by (cases upper; elim disjE; simp add: hex_char_def)+
qed

lemma length_hex_digits: "length (hex_digits upper k n) = k"
  by (induction k) simp_all

lemma strtol_digits_hex_digits:
  "strtol_digits acc (hex_digits upper k n) = acc * 16 ^ k + int (n mod 16 ^ k)"
proof (induction k arbitrary: acc)
  case 0
  show ?case by simp
next
  case (Suc k)
  have d: "n div 16 ^ k mod 16 < 16" by simp
  have "n mod (16 ^ k * 16) = 16 ^ k * (n div 16 ^ k mod 16) + n mod 16 ^ k"
    by (rule mod_mult2_eq)
  then have split: "n mod 16 ^ Suc k = 16 ^ k * (n div 16 ^ k mod 16) + n mod 16 ^ k"
    by (simp only: power_Suc2)
  have "strtol_digits acc (hex_digits upper (Suc k) n)
          = strtol_digits (acc * 16 + int (n div 16 ^ k mod 16)) (hex_digits upper k n)"
    using hex_char_props(1) [OF d] by simp
  also have "\<dots> = (acc * 16 + int (n div 16 ^ k mod 16)) * 16 ^ k + int (n mod 16 ^ k)"
    by (rule Suc.IH)
  also have "\<dots> = acc * 16 ^ Suc k + int (n mod 16 ^ Suc k)"
    unfolding split by (simp add: algebra_simps)
  finally show ?case .
qed

lemma hex8_Cons: "hex8 upper n = hex_char upper (n div 16 ^ 7 mod 16) # hex_digits upper 7 n"
  by (simp add: hex8_def hex_digits_numeral)

lemma length_hex8: "length (hex8 upper n) = 8"
  by (simp add: hex8_def length_hex_digits)

lemma strtol_hex8_any:
  assumes "n < 16 ^ 8"
  shows "strtol dm (hex8 upper n)
           = (if LONG_MAX dm < int n then (LONG_MAX dm, Some ERANGE) else (int n, None))"
proof -
  have d: "n div 16 ^ 7 mod 16 < 16" by simp
  note c = hex_char_props [OF d]
  have s1: "dropWhile isspace (hex8 upper n) = hex8 upper n"
    using c(2) by (simp add: hex8_Cons)
  have no_x: "(case hex8 upper n of
                 c0 # x # r \<Rightarrow>
                   if c0 = CHR ''0'' \<and> (x = CHR ''x'' \<or> x = CHR ''X'') then r else hex8 upper n
               | _ \<Rightarrow> hex8 upper n) = hex8 upper n"
  proof -
    have d6: "n div 16 ^ 6 mod 16 < 16" by simp
    have "hex_digits upper 7 n = hex_char upper (n div 16 ^ 6 mod 16) # hex_digits upper 6 n"
      by (simp add: hex_digits_numeral)
    then show ?thesis
      using hex_char_props(5,6) [OF d6] by (simp add: hex8_Cons)
  qed
  have val: "strtol_digits 0 (hex8 upper n) = int n"
    using assms by (simp add: hex8_def strtol_digits_hex_digits)
  have range: "\<not> int n < LONG_MIN dm"
    by (cases dm) (simp_all add: LONG_MIN_def)
  have sign: "(case hex8 upper n of
                 [] \<Rightarrow> (False, hex8 upper n)
               | c # r \<Rightarrow> if c = CHR ''-'' then (True, r)
                          else if c = CHR ''+'' then (False, r)
                          else (False, hex8 upper n)) = (False, hex8 upper n)"
    using c(3,4) by (simp add: hex8_Cons)
  show ?thesis
    unfolding strtol_def s1 sign Let_def prod.case no_x val
    using range by simp
qed

lemma strtol_hex8:
  assumes "n < 2 ^ 31"
  shows "strtol dm (hex8 upper n) = (int n, None)"
proof -
  have "n < 16 ^ 8"
    using assms by simp
  moreover have "\<not> LONG_MAX dm < int n"
    using assms by (cases dm) (simp_all add: LONG_MAX_def)
  ultimately show ?thesis
    by (simp add: strtol_hex8_any)
qed

lemma fold_max_ge: "a \<le> fold max xs (a::nat)"
proof (induction xs arbitrary: a)
  case Nil
  show ?case by simp
next
  case (Cons x xs)
  have "a \<le> max x a" by simp
  also have "\<dots> \<le> fold max xs (max x a)" by (rule Cons.IH)
  finally show ?case by simp
qed

lemma fold_max_mem: "x \<in> set xs \<Longrightarrow> x \<le> fold max xs (a::nat)"
proof (induction xs arbitrary: a)
  case Nil
  then show ?case by simp
next
  case (Cons y ys)
  show ?case
  proof (cases "x = y")
    case True
    have "x \<le> max y a" using True by simp
    also have "\<dots> \<le> fold max ys (max y a)" by (rule fold_max_ge)
    finally show ?thesis by simp
  next
    case False
    then have "x \<in> set ys" using Cons.prems by simp
    then show ?thesis using Cons.IH by simp
  qed
qed

lemma fresh_addr_fresh: "fresh_addr h \<notin> fst ` set h"
proof
  assume "fresh_addr h \<in> fst ` set h"
  then have "fresh_addr h \<in> set (map fst h)" by simp
  then have "fresh_addr h \<le> fold max (map fst h) 0" by (rule fold_max_mem)
  then show False by (simp add: fresh_addr_def)
qed

lemma filter_other_blocks:
  "p \<notin> fst ` set H \<Longrightarrow> filter (\<lambda>b. fst b \<noteq> p) H = H"
  by (induction H) auto

lemma map_other_blocks:
  "p \<notin> fst ` set H \<Longrightarrow> map (\<lambda>b. if fst b = p then (p, f (snd b)) else b) H = H"
  by (induction H) auto

lemma to_int_id: "- (2 ^ 31) \<le> x \<Longrightarrow> x < 2 ^ 31 \<Longrightarrow> to_int x = x"
  by (simp add: to_int_def)


lemma to_size_t_id: "0 \<le> x \<Longrightarrow> x < 2 ^ 31 \<Longrightarrow> to_size_t dm x = x"
  by (cases dm) (simp_all add: to_size_t_def)


lemma mod_neg_shift:
  fixes x m :: int
  assumes "- m \<le> x" "x < 0"
  shows "x mod m = x + m"
proof -
  have "x mod m = (x + m) mod m" by simp
  also have "\<dots> = x + m"
    using assms by (intro mod_pos_pos_trivial) simp_all
  finally show ?thesis .
qed

lemma to_size_t_negative:
  assumes "- (2 ^ 31) \<le> x" "x < 0"
  shows "SSIZE_MAX dm < to_size_t dm x"
proof -
  have "- (2 ^ long_bits dm) \<le> x"
    using assms(1) by (cases dm) simp_all
  then have "x mod 2 ^ long_bits dm = x + 2 ^ long_bits dm"
    using assms(2) by (rule mod_neg_shift)
  then show ?thesis
    using assms by (cases dm) (simp_all add: to_size_t_def SSIZE_MAX_def)
qed

lemma SSIZE_MAX_ge: "2 ^ 31 - 1 \<le> SSIZE_MAX dm"
  by (cases dm) (simp_all add: SSIZE_MAX_def)

subsection \<open>Facts about the loop\<close>

lemma sys_read_data:
  assumes "rx w = Data bs # es" "0 < count" "count \<le> SSIZE_MAX dm"
  shows "sys_read dm count w
           = (int (min (nat count) (length bs)), take (nat count) bs,
              w\<lparr>rx := (if length bs \<le> nat count then es else Data (drop (nat count) bs) # es)\<rparr>)"
  using assms by (simp add: sys_read_def)

lemma sys_read_cases:
  assumes "sys_read dm count w = (r, bs, w')"
  shows "heap w' = heap w"
    and "malloc_ok w' = malloc_ok w"
    and "0 < r \<Longrightarrow> r = int (length bs) \<and> r \<le> count \<and> count \<le> SSIZE_MAX dm \<and>
                  rx_bytes (rx w') + length bs = rx_bytes (rx w)"
    and "r \<le> 0 \<Longrightarrow> bs = []"
  using assms
  apply (auto simp: sys_read_def split: if_splits list.splits rx_event.splits)
  apply (cases "0 \<le> count"; simp add: le_nat_iff)
  done



lemma sys_read_zero:
  "\<exists>r bs w'. sys_read dm 0 w = (r, bs, w') \<and> r \<le> 0 \<and> heap w' = heap w"
proof -
  obtain r bs w' where rd: "sys_read dm 0 w = (r, bs, w')"
    by (metis prod_cases3)
  have "r \<le> 0"
    using sys_read_cases(3) [OF rd] by force
  then show ?thesis
    using rd sys_read_cases(1) [OF rd] by simp
qed

lemma rx_stream_nonempty:
  "rx_stream es \<noteq> [] \<Longrightarrow> \<exists>bs es'. es = Data bs # es' \<and> bs \<noteq> []"
  by (cases es rule: rx_stream.cases) (auto split: if_splits)

lemma rx_stream_after:
  "n \<le> length bs \<Longrightarrow>
   rx_stream (if length bs \<le> n then es else Data (drop n bs) # es)
     = drop n (bs @ rx_stream es)"
  by simp

lemma store_append:
  assumes "off \<le> length blk"
  shows "store (off + length a) b (store off a blk) = store off (a @ b) blk"
  using assms by (simp add: store_def min_absorb2 ac_simps)

lemma length_store:
  "off + length bs \<le> length blk \<Longrightarrow> length (store off bs blk) = length blk"
  by (simp add: store_def)

lemma store_whole: "length blk = length bs \<Longrightarrow> store 0 bs blk = map Some bs"
  by (simp add: store_def)

lemma read_payload_complete:
  assumes "0 < payload_left" "0 \<le> payload_read"
      and "payload_read + payload_left = payload_size" "payload_size < 2 ^ 31"
      and "nat payload_left \<le> length (rx_stream (rx w))"
      and "heap w = (data, blk) # H" "data \<notin> fst ` set H" "length blk = nat payload_size"
  shows "\<exists>w'. read_payload dm payload_size data payload_left payload_read payload_read w
                 = (NO_ERROR, Some data, payload_size, w') \<and>
              heap w' = (data, store (nat payload_read)
                                 (take (nat payload_left) (rx_stream (rx w))) blk) # H \<and>
              rx_stream (rx w') = drop (nat payload_left) (rx_stream (rx w)) \<and>
              errno w' = errno w"
  using assms
proof (induction "nat payload_left" arbitrary: payload_left payload_read w blk rule: less_induct)
  case less
  have "rx_stream (rx w) \<noteq> []"
    using less.prems(1,5) by auto
  then obtain bs es where rxw: "rx w = Data bs # es" and bs: "bs \<noteq> []"
    using rx_stream_nonempty by blast
  have stream: "rx_stream (rx w) = bs @ rx_stream es"
    using rxw bs by simp
  have count: "to_size_t dm payload_left = payload_left"
    using less.prems(1,2,3,4) by (intro to_size_t_id) simp_all
  have "payload_left \<le> 2 ^ 31 - 1"
    using less.prems(2,3,4) by simp
  then have max: "payload_left \<le> SSIZE_MAX dm"
    using SSIZE_MAX_ge [of dm] by linarith
  define w1 where
    "w1 = w\<lparr>rx := (if length bs \<le> nat payload_left then es
                   else Data (drop (nat payload_left) bs) # es)\<rparr>"
  have rd: "sys_read dm (to_size_t dm payload_left) w
              = (int (min (nat payload_left) (length bs)), take (nat payload_left) bs, w1)"
    unfolding count w1_def using rxw less.prems(1) max by (rule sys_read_data)
  have heap1: "heap w1 = (data, blk) # H" and errno1: "errno w1 = errno w"
    using less.prems(6) by (simp_all add: w1_def)
  show ?case
  proof (cases "nat payload_left \<le> length bs")
    case True
    define w2 where "w2 = heap_write data (nat payload_read) (take (nat payload_left) bs) w1"
    have rx1: "rx_stream (rx w1) = drop (nat payload_left) (rx_stream (rx w))"
      unfolding stream w1_def using True by (simp add: rx_stream_after)
    have r: "int (min (nat payload_left) (length bs)) = payload_left"
      using True less.prems(1) by simp
    have full: "to_int (payload_read + payload_left) = payload_size"
      using less.prems(1,2,3,4) by (simp add: to_int_id)
    have sz: "to_size_t dm payload_size = payload_size"
      using less.prems(1,2,3,4) by (intro to_size_t_id) simp_all
    have "read_payload dm payload_size data payload_left payload_read payload_read w
            = (NO_ERROR, Some data, payload_size, w2)"
      using less.prems(1)
      by (subst read_payload.simps) (simp add: rd r full sz w2_def Let_def)
    moreover have "heap w2 = (data, store (nat payload_read)
                                   (take (nat payload_left) (rx_stream (rx w))) blk) # H"
      using heap1 less.prems(7) True
      by (simp add: w2_def heap_write_def map_other_blocks stream)
    moreover have "rx_stream (rx w2) = drop (nat payload_left) (rx_stream (rx w))"
      using rx1 by (simp add: w2_def heap_write_def)
    moreover have "errno w2 = errno w"
      using errno1 by (simp add: w2_def heap_write_def)
    ultimately show ?thesis by simp
  next
    case False
    define k where "k = int (length bs)"
    define w2 where "w2 = heap_write data (nat payload_read) bs w1"
    have k: "0 < k" "k < payload_left"
      using False bs by (simp_all add: k_def)
    have r: "int (min (nat payload_left) (length bs)) = k"
      using False by (simp add: k_def)
    have whole: "take (nat payload_left) bs = bs"
      using False by simp
    have l': "to_int (payload_left - k) = payload_left - k"
      using k less.prems(1,2,3,4) by (intro to_int_id) simp_all
    have r': "to_int (payload_read + k) = payload_read + k"
      using k less.prems(1,2,3,4) by (intro to_int_id) simp_all
    have r'_sz: "to_size_t dm (payload_read + k) = payload_read + k"
      using k less.prems(1,2,3,4) by (intro to_size_t_id) simp_all
    have ne: "payload_read + k \<noteq> payload_size"
      using k less.prems(3) by simp
    have step: "read_payload dm payload_size data payload_left payload_read payload_read w
                  = read_payload dm payload_size data (payload_left - k) (payload_read + k)
                      (payload_read + k) w2"
      using k ne
      by (subst read_payload.simps) (simp add: rd r whole l' r' r'_sz w2_def Let_def)
    have rx_w1: "rx w1 = es"
      using False by (simp add: w1_def)
    have rx2: "rx w2 = es" and errno2: "errno w2 = errno w"
      and heap2: "heap w2 = (data, store (nat payload_read) bs blk) # H"
      using heap1 errno1 rx_w1 less.prems(7)
      by (simp_all add: w2_def heap_write_def map_other_blocks)
    have fits: "nat payload_read + length bs \<le> length blk"
      using k less.prems(2,3,8) by (simp add: k_def)
    have len2: "length (store (nat payload_read) bs blk) = nat payload_size"
      using fits less.prems(8) by (simp add: length_store)
    have "\<exists>w'. read_payload dm payload_size data (payload_left - k) (payload_read + k)
                   (payload_read + k) w2 = (NO_ERROR, Some data, payload_size, w') \<and>
              heap w' = (data, store (nat (payload_read + k))
                                 (take (nat (payload_left - k)) (rx_stream (rx w2)))
                                 (store (nat payload_read) bs blk)) # H \<and>
              rx_stream (rx w') = drop (nat (payload_left - k)) (rx_stream (rx w2)) \<and>
              errno w' = errno w2"
    proof (rule less.hyps [OF _ _ _ _ less.prems(4) _ heap2 less.prems(7) len2])
      show "nat (payload_left - k) < nat payload_left" using k by simp
      show "0 < payload_left - k" using k by simp
      show "0 \<le> payload_read + k" using k less.prems(2) by simp
      show "payload_read + k + (payload_left - k) = payload_size" using less.prems(3) by simp
      show "nat (payload_left - k) \<le> length (rx_stream (rx w2))"
        using less.prems(5) k unfolding stream rx2 by (simp add: k_def)
    qed
    then obtain w' where
      res: "read_payload dm payload_size data (payload_left - k) (payload_read + k)
              (payload_read + k) w2 = (NO_ERROR, Some data, payload_size, w')"
      and heap': "heap w' = (data, store (nat (payload_read + k))
                                 (take (nat (payload_left - k)) (rx_stream es))
                                 (store (nat payload_read) bs blk)) # H"
      and rx': "rx_stream (rx w') = drop (nat (payload_left - k)) (rx_stream es)"
      and errno': "errno w' = errno w"
      unfolding rx2 errno2 by blast
    have off: "nat (payload_read + k) = nat payload_read + length bs"
      using less.prems(2) by (simp add: k_def nat_add_distrib)
    have rest: "nat (payload_left - k) = nat payload_left - length bs"
      by (simp add: k_def nat_diff_distrib')
    have "nat payload_read \<le> length blk"
      using fits by simp
    then have "store (nat (payload_read + k)) (take (nat (payload_left - k)) (rx_stream es))
                 (store (nat payload_read) bs blk)
               = store (nat payload_read) (bs @ take (nat (payload_left - k)) (rx_stream es)) blk"
      unfolding off by (rule store_append)
    also have "bs @ take (nat (payload_left - k)) (rx_stream es)
                 = take (nat payload_left) (rx_stream (rx w))"
      unfolding stream rest using False by simp
    finally have heap'': "heap w' = (data, store (nat payload_read)
                                   (take (nat payload_left) (rx_stream (rx w))) blk) # H"
      using heap' by simp
    have "rx_stream (rx w') = drop (nat payload_left) (rx_stream (rx w))"
      unfolding rx' stream rest using False by simp
    then show ?thesis
      using step res heap'' errno' by simp
  qed
qed

lemma sys_read_refused:
  "SSIZE_MAX dm < count \<Longrightarrow> sys_read dm count w = (-1, [], w\<lparr>errno := refused_errno w\<rparr>)"
  by (simp add: sys_read_def)

lemma errno_or_EIO_nonzero: "errno_or EIO w \<noteq> NO_ERROR"
  by (simp add: errno_or_def EIO_def NO_ERROR_def)

lemma sys_read_prefix:
  assumes "rx w = Data (p @ d) # es" "length p = 8"
  shows "sys_read dm 8 w = (8, p, w\<lparr>rx := (if d = [] then es else Data d # es)\<rparr>)"
proof -
  have "(8::int) \<le> SSIZE_MAX dm"
    using SSIZE_MAX_ge [of dm] by simp
  then have "sys_read dm 8 w
               = (int (min (nat 8) (length (p @ d))), take (nat 8) (p @ d),
                  w\<lparr>rx := (if length (p @ d) \<le> nat 8 then es
                            else Data (drop (nat 8) (p @ d)) # es)\<rparr>)"
    using assms(1) by (intro sys_read_data) simp_all
  then show ?thesis
    using assms(2) by simp
qed



lemma read_payload_exits:
  assumes "heap w = (data, blk) # H" "data \<notin> fst ` set H"
  shows "\<exists>st dat sz w'.
           read_payload dm payload_size data payload_left payload_read ptr w = (st, dat, sz, w') \<and>
           (st = NO_ERROR \<and> dat = Some data \<and> (\<exists>blk'. heap w' = (data, blk') # H) \<or>
            st \<noteq> NO_ERROR \<and> dat = None \<and> sz = 0 \<and> heap w' = H)"
  using assms
proof (induction "rx_bytes (rx w)" arbitrary: payload_left payload_read ptr w blk rule: less_induct)
  case less
  obtain r bs w1 where rd: "sys_read dm (to_size_t dm payload_left) w = (r, bs, w1)"
    by (metis prod_cases3)
  have heap1: "heap w1 = (data, blk) # H"
    using sys_read_cases(1) [OF rd] less.prems(1) by simp
  show ?case
  proof (cases "0 < r")
    case False
    show ?thesis
    proof (cases "to_size_t dm payload_read = payload_size")
      case True
      have "read_payload dm payload_size data payload_left payload_read ptr w
              = (NO_ERROR, Some data, 0, w1)"
        using False True by (subst read_payload.simps) (simp add: rd)
      then show ?thesis using heap1 by simp
    next
      case ne: False
      have "read_payload dm payload_size data payload_left payload_read ptr w
              = (errno_or EIO w1, None, 0, free data w1)"
        using False ne by (subst read_payload.simps) (simp add: rd)
      moreover have "heap (free data w1) = H"
        using heap1 less.prems(2) by (simp add: free_def filter_other_blocks)
      ultimately show ?thesis
        using errno_or_EIO_nonzero by simp
    qed
  next
    case True
    define w2 where "w2 = heap_write data (nat ptr) bs w1"
    have heap2: "heap w2 = (data, store (nat ptr) bs blk) # H" and rx2: "rx w2 = rx w1"
      using heap1 less.prems(2) by (simp_all add: w2_def heap_write_def map_other_blocks)
    have smaller: "rx_bytes (rx w2) < rx_bytes (rx w)"
      unfolding rx2 using rd True by (rule sys_read_consumes)
    show ?thesis
    proof (cases "to_size_t dm (to_int (payload_read + r)) = payload_size")
      case fin: True
      have "read_payload dm payload_size data payload_left payload_read ptr w
              = (NO_ERROR, Some data, payload_size, w2)"
        using True fin by (subst read_payload.simps) (simp add: rd w2_def Let_def)
      then show ?thesis using heap2 by simp
    next
      case more: False
      have "read_payload dm payload_size data payload_left payload_read ptr w
              = read_payload dm payload_size data (to_int (payload_left - r))
                  (to_int (payload_read + r)) (ptr + r) w2"
        using True more by (subst read_payload.simps) (simp add: rd w2_def Let_def)
      then show ?thesis
        using less.hyps [OF smaller heap2 less.prems(2)] by simp
    qed
  qed
qed

lemma receiveMessage_after_prefix:
  assumes "\<not> mSocketFD c < 0" "sys_read dm 8 w = (8, p, w1)" "strtol dm p = (v, e)"
  shows "receiveMessage dm c w
           = (let w3 = (case e of None \<Rightarrow> w1\<lparr>errno := 0\<rparr> | Some en \<Rightarrow> w1\<lparr>errno := en\<rparr>)
              in if errno w3 \<noteq> 0 then (EIO, None, 0, w3)
                 else if malloc_ok w3 (to_size_t dm v)
                 then read_payload dm (to_size_t dm v) (fresh_addr (heap w3))
                        (to_int (to_size_t dm v)) 0 0
                        (w3\<lparr>heap := (fresh_addr (heap w3),
                                      replicate (nat (to_size_t dm v)) None) # heap w3\<rparr>)
                 else (ENOMEM, None, 0, w3))"
  using assms by (cases e) (simp_all add: receiveMessage_def Let_def malloc_def)

lemma receiveMessage_failure_frees:
  assumes "fst (receiveMessage dm c w) \<noteq> NO_ERROR"
  shows "fst (snd (receiveMessage dm c w)) = None \<and>
         fst (snd (snd (receiveMessage dm c w))) = 0 \<and>
         heap (snd (snd (snd (receiveMessage dm c w)))) = heap w"
proof (cases "mSocketFD c < 0")
  case True
  then show ?thesis by (simp add: receiveMessage_def)
next
  case conn: False
  obtain r p w1 where rd: "sys_read dm 8 w = (r, p, w1)"
    by (metis prod_cases3)
  have heap1: "heap w1 = heap w"
    using sys_read_cases(1) [OF rd] .
  show ?thesis
  proof (cases "r = 8")
    case False
    then show ?thesis using conn heap1 by (simp add: receiveMessage_def rd)
  next
    case True
    obtain v e where conv: "strtol dm p = (v, e)"
      by (metis prod.exhaust)
    define w3 where "w3 = (case e of None \<Rightarrow> w1\<lparr>errno := 0\<rparr> | Some en \<Rightarrow> w1\<lparr>errno := en\<rparr>)"
    have heap3: "heap w3 = heap w"
      using heap1 by (simp add: w3_def split: option.splits)
    show ?thesis
    proof (cases "errno w3 \<noteq> 0")
      case err: True
      then have "receiveMessage dm c w = (EIO, None, 0, w3)"
        using receiveMessage_after_prefix [OF conn rd [unfolded True] conv]
        by (simp add: w3_def [symmetric])
      then show ?thesis using heap3 by simp
    next
      case ok: False
      show ?thesis
      proof (cases "malloc_ok w3 (to_size_t dm v)")
        case False
        then have "receiveMessage dm c w = (ENOMEM, None, 0, w3)"
          using receiveMessage_after_prefix [OF conn rd [unfolded True] conv] ok
          by (simp add: w3_def [symmetric])
        then show ?thesis using heap3 by simp
      next
        case mem: True
        define data where "data = fresh_addr (heap w3)"
        define w4 where
          "w4 = w3\<lparr>heap := (data, replicate (nat (to_size_t dm v)) None) # heap w3\<rparr>"
        have start: "receiveMessage dm c w
                       = read_payload dm (to_size_t dm v) data (to_int (to_size_t dm v)) 0 0 w4"
          using receiveMessage_after_prefix [OF conn rd [unfolded True] conv] ok mem
          by (simp add: w3_def [symmetric] data_def w4_def)
        have "heap w4 = (data, replicate (nat (to_size_t dm v)) None) # heap w"
          using heap3 by (simp add: w4_def)
        moreover have "data \<notin> fst ` set (heap w)"
          unfolding data_def heap3 by (rule fresh_addr_fresh)
        ultimately show ?thesis
          using read_payload_exits
                  [of w4 data _ "heap w" dm "to_size_t dm v" "to_int (to_size_t dm v)" 0 0]
                assms
          unfolding start by auto
      qed
    qed
  qed
qed

subsection \<open>A prefix that is not a hexadecimal number\<close>

text \<open>
  C2.  A length prefix whose eight characters are not a hexadecimal number makes
  \<open>receiveMessage\<close> fail.  The source only looks at \<^verbatim>\<open>errno\<close> after \<^verbatim>\<open>strtol\<close>,
  which converts the leading digits and reports nothing about the rest: the prefix
  \<open>0000001z\<close> is received as the size 1, and \<open>zzzzzzzz\<close> as the size 0, both with
  \<open>NO_ERROR\<close>.
\<close>

theorem receiveMessage_accepts_malformed_prefix:
  "receiveMessage ILP32 \<lparr>mSocketFD = 3\<rparr> (idle_world\<lparr>rx := [Data ''0000001z'', Data ''A'']\<rparr>)
     = (NO_ERROR, Some 1, 1, idle_world\<lparr>rx := [], heap := [(1, [Some CHR ''A''])]\<rparr>) \<and>
   receiveMessage ILP32 \<lparr>mSocketFD = 3\<rparr> (idle_world\<lparr>rx := [Data ''zzzzzzzz'']\<rparr>)
     = (NO_ERROR, Some 1, 0, idle_world\<lparr>rx := [], heap := [(1, [])]\<rparr>)"
  by (simp add: receiveMessage_def sys_read_def SSIZE_MAX_def idle_world_def strtol_def
        isspace_def hex_digit_def LONG_MAX_def LONG_MIN_def to_size_t_def to_int_def malloc_def
        fresh_addr_def read_payload.simps heap_write_def store_def NO_ERROR_def)

subsection \<open>A stream that ends early\<close>




subsection \<open>The framing round trip\<close>

text \<open>
  C5.  A payload of any size that eight hexadecimal digits can express is received from a
  stream that consists of the prefix and the payload.  This fails from the size \<open>2^31\<close>
  on: the source converts the prefix with \<^verbatim>\<open>strtol\<close> and counts in \<^verbatim>\<open>int\<close>, so at
  the prefix \<open>80000000\<close> the status is \<open>EIO\<close> where \<^verbatim>\<open>long\<close> has 32 bits (the
  conversion reports \<^verbatim>\<open>ERANGE\<close>) and the \<^verbatim>\<open>errno\<close> of the refused \<^verbatim>\<open>read\<close> where it
  has 64 (the count is negative as an \<^verbatim>\<open>int\<close>).  It also fails for a one-byte payload
  when the prefix arrives in two chunks (the prefix is read with a single \<^verbatim>\<open>read\<close>:
  \<open>EIO\<close>) and when the buffer cannot be allocated (\<open>ENOMEM\<close>).
\<close>

theorem receiveMessage_roundtrip_fails:
  "(2::nat) ^ 31 < 16 ^ 8 \<and>
   hex8 False (2 ^ 31) = ''80000000'' \<and>
   fst (receiveMessage ILP32 \<lparr>mSocketFD = 3\<rparr>
          (idle_world\<lparr>rx := [Data (hex8 False (2 ^ 31) @ replicate (2 ^ 31) (CHR ''A''))]\<rparr>)) = EIO \<and>
   fst (receiveMessage LP64 \<lparr>mSocketFD = 3\<rparr>
          (idle_world\<lparr>rx := [Data (hex8 False (2 ^ 31) @ replicate (2 ^ 31) (CHR ''A''))]\<rparr>)) = EFAULT \<and>
   ''0000'' @ ''0001A'' = hex8 False 1 @ ''A'' \<and>
   fst (receiveMessage ILP32 \<lparr>mSocketFD = 3\<rparr>
          (idle_world\<lparr>rx := [Data ''0000'', Data ''0001A'']\<rparr>)) = EIO \<and>
   fst (receiveMessage ILP32 \<lparr>mSocketFD = 3\<rparr>
          (idle_world\<lparr>malloc_ok := (\<lambda>n. False), rx := [Data (hex8 False 1 @ ''A'')]\<rparr>)) = ENOMEM \<and>
   EIO \<noteq> NO_ERROR \<and> EFAULT \<noteq> NO_ERROR \<and> ENOMEM \<noteq> NO_ERROR"
proof -
  have one: "hex8 False 1 = ''00000001''"
    by (simp add: hex8_def hex_digits_numeral hex_char_def)
  show ?thesis
    unfolding hex8_ex(3) one
    by (simp add: receiveMessage_def sys_read_def SSIZE_MAX_def idle_world_def strtol_def
          isspace_def hex_digit_def LONG_MAX_def LONG_MIN_def to_size_t_def to_int_def
          malloc_def fresh_addr_def read_payload.simps heap_write_def store_def NO_ERROR_def
          ERANGE_def errno_or_def free_def EFAULT_def EIO_def ENOMEM_def)
qed

lemma receiveMessage_roundtrip_small:
  assumes conn: "0 \<le> mSocketFD c"
      and small: "length payload < 2 ^ 31"
      and stream: "rx w = Data (hex8 upper (length payload) @ d) # es"
                  "d @ rx_stream es = payload @ extra"
      and mem: "malloc_ok w (int (length payload))"
  shows "\<exists>w'. receiveMessage dm c w
                 = (NO_ERROR, Some (fresh_addr (heap w)), int (length payload), w') \<and>
              heap w' = (fresh_addr (heap w), map Some payload) # heap w"
proof -
  define n where "n = int (length payload)"
  define w1 where "w1 = w\<lparr>rx := (if d = [] then es else Data d # es)\<rparr>"
  define data where "data = fresh_addr (heap w)"
  define w4 where "w4 = w1\<lparr>errno := 0, heap := (data, replicate (nat n) None) # heap w\<rparr>"
  have n: "0 \<le> n" "n < 2 ^ 31"
    using small by (simp_all add: n_def)
  have rd: "sys_read dm 8 w = (8, hex8 upper (length payload), w1)"
    unfolding w1_def using stream(1) length_hex8 by (rule sys_read_prefix)
  have conv: "strtol dm (hex8 upper (length payload)) = (n, None)"
    unfolding n_def using small by (rule strtol_hex8)
  have sz: "to_size_t dm n = n"
    using n by (rule to_size_t_id)
  have alloc: "malloc n (w1\<lparr>errno := 0\<rparr>) = (Some data, w4)"
    using mem by (simp add: malloc_def w1_def w4_def data_def n_def)
  have start: "receiveMessage dm c w = read_payload dm n data n 0 0 w4"
    using conn alloc n by (simp add: receiveMessage_def rd conv sz to_int_id)
  have heap4: "heap w4 = (data, replicate (nat n) None) # heap w"
    by (simp add: w4_def)
  have fresh: "data \<notin> fst ` set (heap w)"
    unfolding data_def by (rule fresh_addr_fresh)
  have "rx_stream (rx w4) = d @ rx_stream es"
    by (simp add: w4_def w1_def)
  then have stream4: "rx_stream (rx w4) = payload @ extra"
    using stream(2) by simp
  show ?thesis
  proof (cases "n = 0")
    case True
    obtain r bs w5 where rd0: "sys_read dm 0 w4 = (r, bs, w5)" and r: "r \<le> 0"
      and heap5: "heap w5 = heap w4"
      using sys_read_zero by blast
    have "read_payload dm n data n 0 0 w4 = (NO_ERROR, Some data, 0, w5)"
      using True r by (subst read_payload.simps) (simp add: to_size_t_def rd0)
    then show ?thesis
      using start heap5 heap4 True by (simp add: n_def data_def)
  next
    case False
    have "\<exists>w'. read_payload dm n data n 0 0 w4 = (NO_ERROR, Some data, n, w') \<and>
               heap w' = (data, store (nat 0) (take (nat n) (rx_stream (rx w4)))
                                  (replicate (nat n) None)) # heap w \<and>
               rx_stream (rx w') = drop (nat n) (rx_stream (rx w4)) \<and>
               errno w' = errno w4"
    proof (rule read_payload_complete [OF _ _ _ n(2) _ heap4 fresh])
      show "0 < n" using False n(1) by simp
      show "(0::int) \<le> 0" by simp
      show "0 + n = n" by simp
      show "nat n \<le> length (rx_stream (rx w4))" by (simp add: stream4 n_def)
      show "length (replicate (nat n) (None :: byte option)) = nat n" by simp
    qed
    then obtain w' where
      res: "read_payload dm n data n 0 0 w4 = (NO_ERROR, Some data, n, w')"
      and heap': "heap w' = (data, store (nat 0) (take (nat n) (rx_stream (rx w4)))
                                  (replicate (nat n) None)) # heap w"
      by blast
    have "take (nat n) (rx_stream (rx w4)) = payload"
      by (simp add: stream4 n_def)
    then have "heap w' = (data, map Some payload) # heap w"
      using heap' by (simp add: store_whole n_def)
    then show ?thesis
      using start res by (simp add: n_def data_def)
  qed
qed

lemma receiveMessage_large_fails:
  assumes conn: "0 \<le> mSocketFD c"
      and large: "2 ^ 31 \<le> n" "n < 16 ^ 8"
      and stream: "rx w = Data (hex8 upper n @ d) # es"
  shows "fst (receiveMessage dm c w) \<noteq> NO_ERROR"
proof -
  define w1 where "w1 = w\<lparr>rx := (if d = [] then es else Data d # es)\<rparr>"
  have rd: "sys_read dm 8 w = (8, hex8 upper n, w1)"
    unfolding w1_def using stream length_hex8 by (rule sys_read_prefix)
  have notconn: "\<not> mSocketFD c < 0"
    using conn by simp
  show ?thesis
  proof (cases dm)
    case ILP32
    have "LONG_MAX dm < int n"
      using large(1) ILP32 by (simp add: LONG_MAX_def)
    then have conv: "strtol dm (hex8 upper n) = (LONG_MAX dm, Some ERANGE)"
      using strtol_hex8_any [OF large(2), of dm upper] by simp
    have "receiveMessage dm c w = (EIO, None, 0, w1\<lparr>errno := ERANGE\<rparr>)"
      using receiveMessage_after_prefix [OF notconn rd conv] by (simp add: ERANGE_def)
    then show ?thesis
      by (simp add: EIO_def NO_ERROR_def)
  next
    case LP64
    have "\<not> LONG_MAX dm < int n"
      using large(2) LP64 by (simp add: LONG_MAX_def)
    then have conv: "strtol dm (hex8 upper n) = (int n, None)"
      using strtol_hex8_any [OF large(2), of dm upper] by simp
    have sz: "to_size_t dm (int n) = int n"
      using large(2) LP64 by (simp add: to_size_t_def)
    define w3 where "w3 = w1\<lparr>errno := 0\<rparr>"
    have after: "receiveMessage dm c w
                   = (if malloc_ok w3 (int n)
                      then read_payload dm (int n) (fresh_addr (heap w3)) (to_int (int n)) 0 0
                             (w3\<lparr>heap := (fresh_addr (heap w3), replicate n None) # heap w3\<rparr>)
                      else (ENOMEM, None, 0, w3))"
      using receiveMessage_after_prefix [OF notconn rd conv]
      by (simp add: sz w3_def)
    show ?thesis
    proof (cases "malloc_ok w3 (int n)")
      case False
      then show ?thesis
        using after by (simp add: ENOMEM_def NO_ERROR_def)
    next
      case True
      define w4 where
        "w4 = w3\<lparr>heap := (fresh_addr (heap w3), replicate n None) # heap w3\<rparr>"
      have shift: "int n + 2 ^ 31 = int n - 2 ^ 31 + 2 ^ 32"
        by simp
      have "(int n + 2 ^ 31) mod 2 ^ 32 = (int n - 2 ^ 31) mod 2 ^ 32"
        by (subst shift) (rule mod_add_self2)
      also have "\<dots> = int n - 2 ^ 31"
        using large by (intro mod_pos_pos_trivial) simp_all
      finally have neg: "to_int (int n) = int n - 2 ^ 32"
        by (simp add: to_int_def)
      have "- (2 ^ 31) \<le> to_int (int n)" "to_int (int n) < 0"
        using large unfolding neg by simp_all
      then have "SSIZE_MAX dm < to_size_t dm (to_int (int n))"
        by (rule to_size_t_negative)
      then have rd2: "sys_read dm (to_size_t dm (to_int (int n))) w4
                        = (-1, [], w4\<lparr>errno := refused_errno w4\<rparr>)"
        by (rule sys_read_refused)
      have zero: "to_size_t dm 0 = 0"
        by (simp add: to_size_t_def)
      have "int n \<noteq> 0"
        using large(1) by simp
      then have "read_payload dm (int n) (fresh_addr (heap w3)) (to_int (int n)) 0 0 w4
              = (errno_or EIO (w4\<lparr>errno := refused_errno w4\<rparr>), None, 0,
                 free (fresh_addr (heap w3)) (w4\<lparr>errno := refused_errno w4\<rparr>))"
        by (subst read_payload.simps) (simp add: rd2 zero)
      then show ?thesis
        using after True errno_or_EIO_nonzero by (simp add: w4_def)
    qed
  qed
qed

text \<open>
  C5, amended.  Let the client be connected and let the first chunk the descriptor
  delivers start with the eight hexadecimal digits of a size, in lower or in upper case.
  If the size is below \<open>2^31\<close>, the bytes that follow (in that chunk and the chunks after
  it, however the payload is split) start with a payload of that size, and the buffer is
  allocated, then \<open>receiveMessage\<close> returns \<open>NO_ERROR\<close>, \<^verbatim>\<open>*data_size\<close> is the size,
  and \<^verbatim>\<open>*data\<close> is a new block that holds exactly the payload; the size 0 is included.
  If the size is \<open>2^31\<close> or more, \<open>receiveMessage\<close> fails: the status is not
  \<open>NO_ERROR\<close>, \<^verbatim>\<open>*data\<close> is null and the heap is the one before the call.
\<close>

theorem receiveMessage_roundtrip:
  assumes conn: "0 \<le> mSocketFD c"
  shows "(rx w = Data (hex8 upper (length payload) @ d) # es \<and>
          length payload < 2 ^ 31 \<and> d @ rx_stream es = payload @ extra \<and>
          malloc_ok w (int (length payload)) \<longrightarrow>
            (\<exists>w'. receiveMessage dm c w
                     = (NO_ERROR, Some (fresh_addr (heap w)), int (length payload), w') \<and>
                  heap w' = (fresh_addr (heap w), map Some payload) # heap w)) \<and>
         (rx w = Data (hex8 upper n @ d) # es \<and> 2 ^ 31 \<le> n \<and> n < 16 ^ 8 \<longrightarrow>
            fst (receiveMessage dm c w) \<noteq> NO_ERROR \<and>
            fst (snd (receiveMessage dm c w)) = None \<and>
            heap (snd (snd (snd (receiveMessage dm c w)))) = heap w)"
proof (intro conjI impI)
  assume "rx w = Data (hex8 upper (length payload) @ d) # es \<and>
          length payload < 2 ^ 31 \<and> d @ rx_stream es = payload @ extra \<and>
          malloc_ok w (int (length payload))"
  then show "\<exists>w'. receiveMessage dm c w
                     = (NO_ERROR, Some (fresh_addr (heap w)), int (length payload), w') \<and>
                  heap w' = (fresh_addr (heap w), map Some payload) # heap w"
    using receiveMessage_roundtrip_small [OF conn, of payload w upper d es extra dm] by simp
next
  assume "rx w = Data (hex8 upper n @ d) # es \<and> 2 ^ 31 \<le> n \<and> n < 16 ^ 8"
  then have failed: "fst (receiveMessage dm c w) \<noteq> NO_ERROR"
    using receiveMessage_large_fails [OF conn, of n w upper d es dm] by simp
  show "fst (receiveMessage dm c w) \<noteq> NO_ERROR"
    by (rule failed)
  show "fst (snd (receiveMessage dm c w)) = None"
    and "heap (snd (snd (snd (receiveMessage dm c w)))) = heap w"
    using receiveMessage_failure_frees [OF failed] by simp_all
qed

theorem receiveMessage_roundtrip_witness:
  "receiveMessage ILP32 \<lparr>mSocketFD = 3\<rparr>
       (idle_world\<lparr>rx := [Data ''00000003A'', Data ''BC'']\<rparr>)
     = (NO_ERROR, Some 1, 3,
        idle_world\<lparr>rx := [], heap := [(1, [Some CHR ''A'', Some CHR ''B'', Some CHR ''C''])]\<rparr>) \<and>
   receiveMessage LP64 \<lparr>mSocketFD = 3\<rparr> (idle_world\<lparr>rx := [Data ''00000000'']\<rparr>)
     = (NO_ERROR, Some 1, 0, idle_world\<lparr>rx := [], heap := [(1, [])]\<rparr>) \<and>
   fst (receiveMessage LP64 \<lparr>mSocketFD = 3\<rparr> (idle_world\<lparr>rx := [Data ''80000000'']\<rparr>))
     \<noteq> NO_ERROR \<and>
   fst (snd (receiveMessage LP64 \<lparr>mSocketFD = 3\<rparr> (idle_world\<lparr>rx := [Data ''80000000'']\<rparr>)))
     = None"
proof -
  have first: "receiveMessage ILP32 \<lparr>mSocketFD = 3\<rparr>
                   (idle_world\<lparr>rx := [Data ''00000003A'', Data ''BC'']\<rparr>)
                 = (NO_ERROR, Some 1, 3,
                    idle_world\<lparr>rx := [],
                      heap := [(1, [Some CHR ''A'', Some CHR ''B'', Some CHR ''C''])]\<rparr>)"
    by (simp add: receiveMessage_def sys_read_def SSIZE_MAX_def idle_world_def strtol_def
          isspace_def hex_digit_def LONG_MAX_def LONG_MIN_def to_size_t_def to_int_def
          malloc_def fresh_addr_def read_payload.simps heap_write_def store_def NO_ERROR_def)
  have second: "receiveMessage LP64 \<lparr>mSocketFD = 3\<rparr> (idle_world\<lparr>rx := [Data ''00000000'']\<rparr>)
                  = (NO_ERROR, Some 1, 0, idle_world\<lparr>rx := [], heap := [(1, [])]\<rparr>)"
    by (simp add: receiveMessage_def sys_read_def SSIZE_MAX_def idle_world_def strtol_def
          isspace_def hex_digit_def LONG_MAX_def LONG_MIN_def to_size_t_def to_int_def
          malloc_def fresh_addr_def read_payload.simps heap_write_def store_def NO_ERROR_def)
  have "\<exists>w'. receiveMessage ILP32 \<lparr>mSocketFD = 3\<rparr>
                 (idle_world\<lparr>rx := [Data ''00000003A'', Data ''BC'']\<rparr>)
               = (NO_ERROR,
                  Some (fresh_addr (heap (idle_world\<lparr>rx := [Data ''00000003A'', Data ''BC'']\<rparr>))),
                  int (length ''ABC''), w') \<and>
             heap w' = (fresh_addr (heap (idle_world\<lparr>rx := [Data ''00000003A'', Data ''BC'']\<rparr>)),
                        map Some ''ABC'')
                       # heap (idle_world\<lparr>rx := [Data ''00000003A'', Data ''BC'']\<rparr>)"
    using receiveMessage_roundtrip
            [where c = "\<lparr>mSocketFD = 3\<rparr>" and payload = "''ABC''" and dm = ILP32
               and upper = False and n = 0
               and w = "idle_world\<lparr>rx := [Data ''00000003A'', Data ''BC'']\<rparr>"
               and d = "''A''" and es = "[Data ''BC'']" and extra = "[]"]
    by (simp add: hex8_def hex_digits_numeral hex_char_def idle_world_def)
  moreover
  have "\<exists>w'. receiveMessage LP64 \<lparr>mSocketFD = 3\<rparr> (idle_world\<lparr>rx := [Data ''00000000'']\<rparr>)
               = (NO_ERROR, Some (fresh_addr (heap (idle_world\<lparr>rx := [Data ''00000000'']\<rparr>))),
                  int (length ([] :: byte list)), w') \<and>
             heap w' = (fresh_addr (heap (idle_world\<lparr>rx := [Data ''00000000'']\<rparr>)),
                        map Some ([] :: byte list))
                       # heap (idle_world\<lparr>rx := [Data ''00000000'']\<rparr>)"
    using receiveMessage_roundtrip
            [where c = "\<lparr>mSocketFD = 3\<rparr>" and payload = "[]" and dm = LP64
               and upper = True and n = 0
               and w = "idle_world\<lparr>rx := [Data ''00000000'']\<rparr>"
               and d = "[]" and es = "[]" and extra = "[]"]
    by (simp add: hex8_def hex_digits_numeral hex_char_def idle_world_def)
  moreover
  have "fst (receiveMessage LP64 \<lparr>mSocketFD = 3\<rparr> (idle_world\<lparr>rx := [Data ''80000000'']\<rparr>))
          \<noteq> NO_ERROR \<and>
        fst (snd (receiveMessage LP64 \<lparr>mSocketFD = 3\<rparr>
                    (idle_world\<lparr>rx := [Data ''80000000'']\<rparr>))) = None"
    using receiveMessage_roundtrip
            [where c = "\<lparr>mSocketFD = 3\<rparr>" and payload = "[]" and dm = LP64
               and upper = False and n = "2 ^ 31"
               and w = "idle_world\<lparr>rx := [Data ''80000000'']\<rparr>"
               and d = "[]" and es = "[]" and extra = "[]"]
    by (simp add: hex8_def hex_digits_numeral hex_char_def idle_world_def)
  ultimately show ?thesis
    using first second by simp
qed

section \<open>The info query\<close>

text \<open>
  \<^verbatim>\<open>queryInfo(char** p_info_string)\<close> after \<^verbatim>\<open>doQuery\<close>, whose result and query are
  parameters.  \<open>p_info_string\<close> is \<open>None\<close> for a null pointer and \<open>Some v\<close> for a pointer
  to a \<^verbatim>\<open>char*\<close> that holds \<open>v\<close>; the result carries the \<^verbatim>\<open>char*\<close> after the call.
  The test \<^verbatim>\<open>if (!p_info_string)\<close> of the source only logs, so it has no branch here;
  the store \<^verbatim>\<open>*p_info_string = malloc(...)\<close> through a null pointer is the fault.
\<close>

datatype fault = NullPointerWrite

definition c_string :: "byte list \<Rightarrow> byte list" where
  "c_string bs = takeWhile (\<lambda>ch. ch \<noteq> CHR 0x00) bs"

definition queryInfo ::
  "data_model \<Rightarrow> int \<Rightarrow> QemuQuery \<Rightarrow> nat option option \<Rightarrow> world
     \<Rightarrow> fault + (int \<times> nat option option \<times> world)" where
  "queryInfo dm doQuery_res query p_info_string w =
     (if doQuery_res \<noteq> 0 \<or> \<not> query_succeeded query
      then Inr (completion_status query, p_info_string, w)
      else if mReplyDataSize query = 0 then Inr (EINVAL, p_info_string, w)
      else
        let n = size_add dm (mReplyDataSize query) 1;
            (buf, w1) = malloc n w
        in case p_info_string of
             None \<Rightarrow> Inl NullPointerWrite
           | Some old \<Rightarrow>
               (case buf of
                  None \<Rightarrow> Inr (ENOMEM, Some None, w1)
                | Some a \<Rightarrow>
                    Inr (NO_ERROR, Some (Some a),
                         heap_write a 0
                           (if n = 0 then []
                            else snprintf (nat n) (c_string (mReplyData query)) @ [CHR 0x00])
                           w1)))"

definition reply_info :: QemuQuery where
  "reply_info = \<lparr>completion_status = 0, query_succeeded = True,
     mReplyData = ''name=cam'', mReplyDataSize = 8\<rparr>"

lemma queryInfo_example:
  "queryInfo ILP32 0 reply_info (Some None) idle_world
     = Inr (NO_ERROR, Some (Some 1),
            idle_world\<lparr>heap := [(1, map Some (''name=cam'' @ [CHR 0x00]))]\<rparr>)"
  by (simp add: queryInfo_def reply_info_def size_add_def malloc_def idle_world_def
        fresh_addr_def heap_write_def store_def snprintf_def c_string_def NO_ERROR_def)

text \<open>
  C6.  With a null \<open>p_info_string\<close> the operation returns \<open>EINVAL\<close> and writes nothing
  through the pointer.  In the source the test of the pointer has no \<^verbatim>\<open>return\<close>: with a
  reply that is not empty the store through the null pointer takes place.
\<close>

theorem queryInfo_null_pointer_write:
  "queryInfo ILP32 0 reply_info None idle_world = Inl NullPointerWrite"
  by (simp add: queryInfo_def reply_info_def size_add_def malloc_def idle_world_def)

theorem queryInfo_null_pointer_write_witness:
  "queryInfo ILP32 0 reply_info None idle_world \<noteq> Inr (EINVAL, None, idle_world)"
  using queryInfo_null_pointer_write by simp

end
